theory Spec2Isabelle
  imports Complex_Main "HOL-Library.Product_Lexorder" "HOL-Library.Multiset" "HOL-Library.Sublist"
begin

section \<open>Data model (models.py)\<close>

text \<open>
  The four tables of \<^verbatim>\<open>models.py\<close>. A table is the list of its rows in rowid order,
  which for these tables is the order of insertion: rows are never deleted and the
  integer primary key of a new row is one more than the largest key in the table.

  Columns of SQL type \<^verbatim>\<open>Float\<close> hold values of a type parameter \<open>'f\<close>: the ledger only
  copies them, and multiplies a price by a quantity once (in \<open>record_sale\<close>), with Python's
  \<^verbatim>\<open>float * int\<close>, which is a parameter \<open>fmul\<close> of that function.

  A \<^verbatim>\<open>datetime.date\<close> is its proleptic Gregorian ordinal (\<^verbatim>\<open>date.toordinal()\<close>, from 1 for
  0001-01-01 to 3652059 for 9999-12-31). A naive \<^verbatim>\<open>datetime.datetime\<close> is the pair of the
  ordinal of its day and the microsecond within that day, ordered lexicographically,
  which is the order of the stored ISO text \<^verbatim>\<open>YYYY-MM-DD HH:MM:SS.ffffff\<close>.
\<close>

type_synonym date = int

type_synonym datetime = "int \<times> nat"

record 'f tree_type =
  tt_id :: int
  tt_name :: string
  tt_description :: "string option"
  base_unit_price :: 'f

record location =
  loc_id :: int
  loc_name :: string
  loc_description :: "string option"

record 'f stock =
  stock_id :: int
  tree_type_id :: int
  location_id :: int
  quantity :: int
  date_added :: datetime
  cost_per_seedling :: 'f

record 'f transaction =
  tx_id :: int
  tx_tree_type_id :: int
  quantity_sold :: int
  unit_sale_price_at_time_of_sale :: 'f
  total_amount :: 'f
  transaction_date :: datetime

record 'f db =
  tree_types :: "'f tree_type list"
  locations :: "location list"
  stocks :: "'f stock list"
  transactions :: "'f transaction list"

datatype error = OverflowError

section \<open>The store and the session\<close>

text \<open>
  SQLite holds an integer in 64 bits, signed, and Python's integers are unbounded: binding
  an integer outside that range to a statement, as a query parameter or as a column
  value of a row to write, raises \<^verbatim>\<open>OverflowError\<close>. A row can be written when its integer
  columns fit. A flush writes the rows that are new or have changed, that is, the rows
  of the new table that are not rows of the old one; when one of them cannot be written
  the commit fails and the database stays as it was.
\<close>

definition in_int64 :: "int \<Rightarrow> bool" where
  "in_int64 n \<longleftrightarrow> - (2 ^ 63) \<le> n \<and> n < 2 ^ 63"

definition storable_stock :: "'f stock \<Rightarrow> bool" where
  "storable_stock s \<longleftrightarrow>
     in_int64 (stock_id s) \<and> in_int64 (tree_type_id s) \<and> in_int64 (location_id s)
     \<and> in_int64 (quantity s)"

definition storable_transaction :: "'f transaction \<Rightarrow> bool" where
  "storable_transaction t \<longleftrightarrow>
     in_int64 (tx_id t) \<and> in_int64 (tx_tree_type_id t) \<and> in_int64 (quantity_sold t)"

definition writable :: "'f stock list \<Rightarrow> 'f stock list \<Rightarrow> bool" where
  "writable old new = list_all (\<lambda>r. r \<in> set old \<or> storable_stock r) new"

text \<open>
  The key of a row inserted with no explicit id: 1 into an empty table, otherwise the
  largest key plus one. This is SQLite's rule as long as the largest key is less than
  \<open>2^63 - 1\<close>; at that key SQLite looks for an unused key at random, and here the insert
  fails, the key \<open>2^63\<close> not being storable. The properties of an insert that succeeds
  assume that the next key fits.
\<close>

definition next_id :: "int list \<Rightarrow> int" where
  "next_id ids = (if ids = [] then 1 else Max (set ids) + 1)"

text \<open>
  The session keeps one object per primary key (its identity map), so two query results
  for the same row are the same object. An object is therefore modelled by its key, and
  an attribute write goes to the row with that key: \<open>set_quantity\<close> is
  \<^verbatim>\<open>obj.quantity = v\<close> and \<open>add_quantity\<close> is \<^verbatim>\<open>obj.quantity += d\<close>, which reads the
  current value of the attribute.
\<close>

definition set_quantity :: "int \<Rightarrow> int \<Rightarrow> 'f stock list \<Rightarrow> 'f stock list" where
  "set_quantity sid v tbl = map (\<lambda>s. if stock_id s = sid then s\<lparr>quantity := v\<rparr> else s) tbl"

definition add_quantity :: "int \<Rightarrow> int \<Rightarrow> 'f stock list \<Rightarrow> 'f stock list" where
  "add_quantity sid d tbl =
     map (\<lambda>s. if stock_id s = sid then s\<lparr>quantity := quantity s + d\<rparr> else s) tbl"

text \<open>
  \<^verbatim>\<open>db.refresh(obj)\<close> reloads the object from the row with its key. No operation deletes a
  row, so the row is there.
\<close>

definition refresh :: "'f stock list \<Rightarrow> 'f stock \<Rightarrow> 'f stock" where
  "refresh tbl s = (case find (\<lambda>r. stock_id r = stock_id s) tbl of Some r \<Rightarrow> r | None \<Rightarrow> s)"

section \<open>Lookups by id (inventory\_manager.py)\<close>

text \<open>
  A lookup binds the id it is given, and so raises for an id that is not a 64-bit
  integer; otherwise it returns the first row with that id, or \<^verbatim>\<open>None\<close>.
\<close>

definition get_tree_type_by_id :: "'f db \<Rightarrow> int \<Rightarrow> error + 'f tree_type option" where
  "get_tree_type_by_id db tree_type_id' =
     (if in_int64 tree_type_id' then Inr (find (\<lambda>t. tt_id t = tree_type_id') (tree_types db))
      else Inl OverflowError)"

definition get_location_by_id :: "'f db \<Rightarrow> int \<Rightarrow> error + location option" where
  "get_location_by_id db location_id' =
     (if in_int64 location_id' then Inr (find (\<lambda>l. loc_id l = location_id') (locations db))
      else Inl OverflowError)"

definition get_stock_by_id :: "'f db \<Rightarrow> int \<Rightarrow> error + 'f stock option" where
  "get_stock_by_id db stock_id' =
     (if in_int64 stock_id' then Inr (find (\<lambda>s. stock_id s = stock_id') (stocks db))
      else Inl OverflowError)"

section \<open>Stock operations (inventory\_manager.py)\<close>

text \<open>
  Every operation takes the database and returns its result, or the exception it
  raises, with the database after it: the one after the commit, or the one it was given
  when it returns early or raises. \<open>now\<close> is the reading of the clock
  (\<^verbatim>\<open>datetime.datetime.now\<close>) that the operation makes: the column default of \<open>date_added\<close>,
  or the explicit call in \<open>record_sale\<close>.
\<close>

definition add_stock_entry ::
  "datetime \<Rightarrow> 'f db \<Rightarrow> int \<Rightarrow> int \<Rightarrow> int \<Rightarrow> 'f \<Rightarrow> (error + 'f stock) \<times> 'f db" where
  "add_stock_entry now db tree_type_id' location_id' quantity' cost_per_seedling' =
     (let db_stock = \<lparr>stock_id = next_id (map stock_id (stocks db)),
                      tree_type_id = tree_type_id',
                      location_id = location_id',
                      quantity = quantity',
                      date_added = now,
                      cost_per_seedling = cost_per_seedling'\<rparr>;
          tbl = stocks db @ [db_stock]
      in if writable (stocks db) tbl then (Inr db_stock, db\<lparr>stocks := tbl\<rparr>)
         else (Inl OverflowError, db))"

text \<open>
  The filters of \<open>get_all_stock_entries\<close> are applied when the argument is truthy: neither
  \<^verbatim>\<open>None\<close> nor 0. A filter binds its argument.
\<close>

definition filter_by ::
  "('f stock \<Rightarrow> int) \<Rightarrow> int \<Rightarrow> error + 'f stock list \<Rightarrow> error + 'f stock list" where
  "filter_by column v query =
     (case query of
        Inl e \<Rightarrow> Inl e
      | Inr rows \<Rightarrow>
          if in_int64 v then Inr (filter (\<lambda>s. column s = v) rows) else Inl OverflowError)"

definition get_all_stock_entries ::
  "'f db \<Rightarrow> int option \<Rightarrow> int option \<Rightarrow> (error + 'f stock list) \<times> 'f db" where
  "get_all_stock_entries db tree_type_id' location_id' =
     (let query = Inr (stocks db);
          query = (case tree_type_id' of
                     None \<Rightarrow> query
                   | Some t \<Rightarrow> if t \<noteq> 0 then filter_by tree_type_id t query else query);
          query = (case location_id' of
                     None \<Rightarrow> query
                   | Some l \<Rightarrow> if l \<noteq> 0 then filter_by location_id l query else query)
      in (query, db))"

definition update_stock_quantity ::
  "'f db \<Rightarrow> int \<Rightarrow> int \<Rightarrow> (error + 'f stock option) \<times> 'f db" where
  "update_stock_quantity db stock_id' new_quantity =
     (case get_stock_by_id db stock_id' of
        Inl e \<Rightarrow> (Inl e, db)
      | Inr None \<Rightarrow> (Inr None, db)
      | Inr (Some db_stock) \<Rightarrow>
          (let tbl = set_quantity (stock_id db_stock) new_quantity (stocks db)
           in if writable (stocks db) tbl
              then (Inr (Some (refresh tbl db_stock)), db\<lparr>stocks := tbl\<rparr>)
              else (Inl OverflowError, db)))"

text \<open>
  \<open>move_stock_quantity\<close>: the query for the destination lot binds the source's tree type
  and the destination location. The destination lot is the first row of the source's
  tree type at the destination location, which can be the source row itself; then the
  increment and the decrement are writes to one object.
\<close>

definition move_stock_quantity ::
  "datetime \<Rightarrow> 'f db \<Rightarrow> int \<Rightarrow> int \<Rightarrow> int
   \<Rightarrow> (error + ('f stock \<times> 'f stock) option) \<times> 'f db" where
  "move_stock_quantity now db from_stock_id to_location_id quantity_to_move =
     (case get_stock_by_id db from_stock_id of
        Inl e \<Rightarrow> (Inl e, db)
      | Inr None \<Rightarrow> (Inr None, db)
      | Inr (Some from_stock) \<Rightarrow>
          if quantity from_stock < quantity_to_move then (Inr None, db)
          else if \<not> (in_int64 (tree_type_id from_stock) \<and> in_int64 to_location_id)
          then (Inl OverflowError, db)
          else
            (case find (\<lambda>s. tree_type_id s = tree_type_id from_stock
                             \<and> location_id s = to_location_id) (stocks db) of
               Some existing_to_stock \<Rightarrow>
                 (let tbl = add_quantity (stock_id existing_to_stock) quantity_to_move (stocks db);
                      tbl = add_quantity (stock_id from_stock) (- quantity_to_move) tbl
                  in if writable (stocks db) tbl
                     then (Inr (Some (refresh tbl from_stock, refresh tbl existing_to_stock)),
                           db\<lparr>stocks := tbl\<rparr>)
                     else (Inl OverflowError, db))
             | None \<Rightarrow>
                 (let to_stock = \<lparr>stock_id = next_id (map stock_id (stocks db)),
                                  tree_type_id = tree_type_id from_stock,
                                  location_id = to_location_id,
                                  quantity = quantity_to_move,
                                  date_added = now,
                                  cost_per_seedling = cost_per_seedling from_stock\<rparr>;
                      tbl = stocks db @ [to_stock];
                      tbl = add_quantity (stock_id from_stock) (- quantity_to_move) tbl
                  in if writable (stocks db) tbl
                     then (Inr (Some (refresh tbl from_stock, refresh tbl to_stock)),
                           db\<lparr>stocks := tbl\<rparr>)
                     else (Inl OverflowError, db))))"

section \<open>Sales (inventory\_manager.py)\<close>

text \<open>
  The lots a sale may consume: those of the tree type with a positive quantity, oldest
  first. SQL leaves the order of rows with equal \<open>date_added\<close> open; the model keeps them
  in table order (a stable sort).
\<close>

definition available_stock_entries :: "'f db \<Rightarrow> int \<Rightarrow> 'f stock list" where
  "available_stock_entries db tree_type_id' =
     sort_key date_added
       (filter (\<lambda>s. tree_type_id s = tree_type_id' \<and> 0 < quantity s) (stocks db))"

text \<open>
  The loop of \<open>record_sale\<close> over the query result, with \<open>remaining_to_sell\<close> and the
  table the objects live in.
\<close>

fun sale_loop :: "'f stock list \<Rightarrow> int \<Rightarrow> 'f stock list \<Rightarrow> 'f stock list" where
  "sale_loop [] remaining_to_sell tbl = tbl"
| "sale_loop (stock_entry # rest) remaining_to_sell tbl =
     (if remaining_to_sell \<le> 0 then tbl
      else if quantity stock_entry \<ge> remaining_to_sell then
        sale_loop rest 0
          (set_quantity (stock_id stock_entry) (quantity stock_entry - remaining_to_sell) tbl)
      else
        sale_loop rest (remaining_to_sell - quantity stock_entry)
          (set_quantity (stock_id stock_entry) 0 tbl))"

text \<open>
  The commit of \<open>record_sale\<close> writes the lots the loop has changed and the new
  transaction, all or nothing.
\<close>

definition record_sale ::
  "('f \<Rightarrow> int \<Rightarrow> 'f) \<Rightarrow> datetime \<Rightarrow> 'f db \<Rightarrow> int \<Rightarrow> int
   \<Rightarrow> (error + 'f transaction option) \<times> 'f db" where
  "record_sale fmul now db tree_type_id' quantity_sold' =
     (case get_tree_type_by_id db tree_type_id' of
        Inl e \<Rightarrow> (Inl e, db)
      | Inr None \<Rightarrow> (Inr None, db)
      | Inr (Some tree_type) \<Rightarrow>
          (let available = available_stock_entries db tree_type_id';
               total_available_quantity = sum_list (map quantity available)
           in if total_available_quantity < quantity_sold' then (Inr None, db)
              else
                (let tbl = sale_loop available quantity_sold' (stocks db);
                     unit_sale_price = base_unit_price tree_type;
                     total_amount' = fmul unit_sale_price quantity_sold';
                     db_transaction = \<lparr>tx_id = next_id (map tx_id (transactions db)),
                                        tx_tree_type_id = tree_type_id',
                                        quantity_sold = quantity_sold',
                                        unit_sale_price_at_time_of_sale = unit_sale_price,
                                        total_amount = total_amount',
                                        transaction_date = now\<rparr>
                 in if writable (stocks db) tbl \<and> storable_transaction db_transaction
                    then (Inr (Some db_transaction),
                          db\<lparr>stocks := tbl,
                             transactions := transactions db @ [db_transaction]\<rparr>)
                    else (Inl OverflowError, db))))"

section \<open>Sales history (inventory\_manager.py)\<close>

text \<open>
  \<^verbatim>\<open>end_date + datetime.timedelta(days=1)\<close> raises \<^verbatim>\<open>OverflowError\<close> when the result is not a
  date. A date bound to the comparison with a datetime column stands for the start of
  its day.
\<close>

definition MAXORDINAL :: int where
  "MAXORDINAL = 3652059"

definition date_add_days :: "date \<Rightarrow> int \<Rightarrow> error + date" where
  "date_add_days d n =
     (if 1 \<le> d + n \<and> d + n \<le> MAXORDINAL then Inr (d + n) else Inl OverflowError)"

definition midnight :: "date \<Rightarrow> datetime" where
  "midnight d = (d, 0)"

text \<open>
  \<^verbatim>\<open>ORDER BY transaction_date DESC\<close>; rows with equal dates come in an order SQL leaves
  open, here the reverse of table order.
\<close>

definition order_by_date_desc :: "'f transaction list \<Rightarrow> 'f transaction list" where
  "order_by_date_desc txs = rev (sort_key transaction_date txs)"

definition get_all_transactions ::
  "'f db \<Rightarrow> date option \<Rightarrow> date option \<Rightarrow> (error + 'f transaction list) \<times> 'f db" where
  "get_all_transactions db start_date end_date =
     (let query = transactions db;
          query = (case start_date of
                     None \<Rightarrow> query
                   | Some s \<Rightarrow> filter (\<lambda>t. midnight s \<le> transaction_date t) query)
      in case end_date of
           None \<Rightarrow> (Inr (order_by_date_desc query), db)
         | Some e \<Rightarrow>
             (case date_add_days e 1 of
                Inl err \<Rightarrow> (Inl err, db)
              | Inr e1 \<Rightarrow>
                  (Inr (order_by_date_desc
                          (filter (\<lambda>t. transaction_date t < midnight e1) query)), db)))"

section \<open>Quantities the properties speak about\<close>

text \<open>
  The stock a sale can draw on: the sum over the lots of a tree type with a positive
  quantity; the stock of a tree type over all lots; and the stock of a tree type at one
  location.
\<close>

definition total_available :: "'f db \<Rightarrow> int \<Rightarrow> int" where
  "total_available db tree_type_id' =
     sum_list (map quantity
       (filter (\<lambda>s. tree_type_id s = tree_type_id' \<and> 0 < quantity s) (stocks db)))"

definition type_total :: "'f db \<Rightarrow> int \<Rightarrow> int" where
  "type_total db tree_type_id' =
     sum_list (map quantity (filter (\<lambda>s. tree_type_id s = tree_type_id') (stocks db)))"

definition location_total :: "'f db \<Rightarrow> int \<Rightarrow> int \<Rightarrow> int" where
  "location_total db tree_type_id' location_id' =
     sum_list (map quantity
       (filter (\<lambda>s. tree_type_id s = tree_type_id' \<and> location_id s = location_id')
          (stocks db)))"

text \<open>
  A database as SQLite holds it: the lots have distinct keys and integer columns of 64
  bits.
\<close>

definition stored :: "'f db \<Rightarrow> bool" where
  "stored db \<longleftrightarrow> distinct (map stock_id (stocks db)) \<and> list_all storable_stock (stocks db)"

text \<open>
  The ledger operations as commands, to speak about the states a sequence of them
  reaches. A command that raises leaves the database as it was. \<open>precondition\<close> is what
  the contract of the operation states: a positive quantity for an addition, a transfer
  and a sale, and nothing for the quantity update, for which no condition is stated
  anywhere and which \<open>update_stock_quantity\<close> does not guard. \<open>update_not_negative\<close> is the
  condition that the property of non-negative quantities has to add: a quantity update
  sets a quantity of at least 0.
\<close>

datatype 'f ledger_op =
    Add datetime int int int 'f
  | Move datetime int int int
  | Sale datetime int int
  | Update int int

fun exec :: "('f \<Rightarrow> int \<Rightarrow> 'f) \<Rightarrow> 'f ledger_op \<Rightarrow> 'f db \<Rightarrow> 'f db" where
  "exec fmul (Add now t l q c) db = snd (add_stock_entry now db t l q c)"
| "exec fmul (Move now sid l q) db = snd (move_stock_quantity now db sid l q)"
| "exec fmul (Sale now t q) db = snd (record_sale fmul now db t q)"
| "exec fmul (Update sid q) db = snd (update_stock_quantity db sid q)"

fun precondition :: "'f ledger_op \<Rightarrow> bool" where
  "precondition (Add now t l q c) = (0 < q)"
| "precondition (Move now sid l q) = (0 < q)"
| "precondition (Sale now t q) = (0 < q)"
| "precondition (Update sid q) = True"

fun update_not_negative :: "'f ledger_op \<Rightarrow> bool" where
  "update_not_negative (Update sid q) = (0 \<le> q)"
| "update_not_negative op = True"

fun run :: "('f \<Rightarrow> int \<Rightarrow> 'f) \<Rightarrow> 'f ledger_op list \<Rightarrow> 'f db \<Rightarrow> 'f db" where
  "run fmul [] db = db"
| "run fmul (op # ops) db = run fmul ops (exec fmul op db)"

section \<open>Example databases\<close>

text \<open>
  Prices are reals here, multiplied by the quantity. \<open>nursery\<close> is the example of the
  specification: one tree type, lot 1 of 10 seedlings added on day 1 and lot 2 of 5
  seedlings added on day 2, both at location 1, and an empty location 2.
\<close>

definition fmul_real :: "real \<Rightarrow> int \<Rightarrow> real" where
  "fmul_real p n = p * real_of_int n"

definition oak :: "real tree_type" where
  "oak = \<lparr>tt_id = 1, tt_name = ''Oak'', tt_description = None, base_unit_price = 5 / 2\<rparr>"

definition lot :: "int \<Rightarrow> int \<Rightarrow> int \<Rightarrow> int \<Rightarrow> real stock" where
  "lot i l q day =
     \<lparr>stock_id = i, tree_type_id = 1, location_id = l, quantity = q,
      date_added = (day, 0), cost_per_seedling = 1\<rparr>"

definition sale_tx :: "int \<Rightarrow> int \<Rightarrow> datetime \<Rightarrow> real transaction" where
  "sale_tx i q t =
     \<lparr>tx_id = i, tx_tree_type_id = 1, quantity_sold = q,
      unit_sale_price_at_time_of_sale = 5 / 2, total_amount = 5 / 2 * real_of_int q,
      transaction_date = t\<rparr>"

definition nursery :: "real db" where
  "nursery =
     \<lparr>tree_types = [oak],
      locations = [\<lparr>loc_id = 1, loc_name = ''Bed A'', loc_description = None\<rparr>,
                   \<lparr>loc_id = 2, loc_name = ''Bed B'', loc_description = None\<rparr>],
      stocks = [lot 1 1 10 1, lot 2 1 5 2],
      transactions = []\<rparr>"

text \<open>
  \<open>two_beds\<close> has one lot in each location; \<open>empty_beds\<close> has no lot yet and
  \<open>season\<close> is a sequence of commands on it; \<open>big_lots\<close> has two lots of \<open>2^62\<close>
  seedlings; \<open>history\<close> holds four sales, two of them on day 738001, at its first and at
  its last microsecond.
\<close>

definition two_beds :: "real db" where
  "two_beds = nursery\<lparr>stocks := [lot 1 1 10 1, lot 2 2 3 2]\<rparr>"

definition empty_beds :: "real db" where
  "empty_beds = nursery\<lparr>stocks := []\<rparr>"

definition big_lots :: "real db" where
  "big_lots = nursery\<lparr>stocks := [lot 1 1 (2 ^ 62) 1, lot 2 1 (2 ^ 62) 2]\<rparr>"

definition history :: "real db" where
  "history = nursery\<lparr>transactions :=
     [sale_tx 1 2 (738000, 100), sale_tx 2 3 (738001, 0), sale_tx 3 1 (738001, 86399999999),
      sale_tx 4 1 (738002, 0)]\<rparr>"

definition season :: "real ledger_op list" where
  "season = [Add (1, 0) 1 1 10 1, Add (2, 0) 1 1 5 1, Move (3, 0) 1 2 4, Sale (4, 0) 1 15,
             Update 2 0]"

section \<open>Auxiliary facts\<close>

lemmas example_defs = nursery_def oak_def lot_def sale_tx_def fmul_real_def two_beds_def
  history_def season_def big_lots_def empty_beds_def

lemmas operation_defs = record_sale_def move_stock_quantity_def add_stock_entry_def
  update_stock_quantity_def get_all_stock_entries_def filter_by_def get_all_transactions_def
  get_tree_type_by_id_def get_stock_by_id_def available_stock_entries_def next_id_def
  set_quantity_def add_quantity_def refresh_def total_available_def type_total_def
  location_total_def date_add_days_def midnight_def order_by_date_desc_def MAXORDINAL_def
  in_int64_def storable_stock_def storable_transaction_def writable_def stored_def Let_def

subsection \<open>Keys and attribute writes\<close>

lemma distinct_ids_Cons:
  "distinct (map stock_id (a # rest)) \<Longrightarrow> b \<in> set rest \<Longrightarrow> stock_id b \<noteq> stock_id a"
  by (auto simp: image_iff)

lemma distinct_ids_eq:
  "distinct (map stock_id tbl) \<Longrightarrow> a \<in> set tbl \<Longrightarrow> b \<in> set tbl \<Longrightarrow> stock_id a = stock_id b \<Longrightarrow> a = b"
  by (auto simp: distinct_map dest: inj_onD)

lemma next_id_fresh: "next_id ids \<notin> set ids"
proof (cases "ids = []")
  case True
  then show ?thesis by simp
next
  case False
  have "x \<le> Max (set ids)" if "x \<in> set ids" for x using that by simp
  then have "x < next_id ids" if "x \<in> set ids" for x
    using that False by (fastforce simp: next_id_def)
  then show ?thesis by blast
qed

lemma find_by_id:
  "distinct (map stock_id tbl) \<Longrightarrow> a \<in> set tbl \<Longrightarrow> find (\<lambda>r. stock_id r = stock_id a) tbl = Some a"
proof (induction tbl)
  case Nil
  then show ?case by simp
next
  case (Cons s tbl)
  show ?case
  proof (cases "s = a")
    case True
    then show ?thesis by simp
  next
    case False
    then have "a \<in> set tbl" using Cons.prems(2) by simp
    moreover from this have "stock_id s \<noteq> stock_id a"
      using Cons.prems(1) distinct_ids_Cons[of s tbl a] by simp
    ultimately show ?thesis using Cons by simp
  qed
qed

lemma get_stock_by_id_SomeD:
  "get_stock_by_id db sid = Inr (Some s) \<Longrightarrow> s \<in> set (stocks db) \<and> stock_id s = sid \<and> in_int64 sid"
  by (auto simp: get_stock_by_id_def find_Some_iff split: if_splits)

lemma get_stock_by_id_in:
  "distinct (map stock_id (stocks db)) \<Longrightarrow> a \<in> set (stocks db) \<Longrightarrow> in_int64 (stock_id a) \<Longrightarrow>
   get_stock_by_id db (stock_id a) = Inr (Some a)"
  by (simp add: get_stock_by_id_def find_by_id)

lemma get_stock_by_id_fresh:
  "sid \<notin> set (map stock_id (stocks db)) \<Longrightarrow> in_int64 sid \<Longrightarrow> get_stock_by_id db sid = Inr None"
  by (auto simp: get_stock_by_id_def find_None_iff)

lemma refresh_map:
  assumes "\<And>s. stock_id (g s) = stock_id s" and "distinct (map stock_id tbl)" and "a \<in> set tbl"
  shows "refresh (map g tbl) a = g a"
proof -
  have "distinct (map stock_id (map g tbl))" using assms(1,2) by (simp add: comp_def)
  moreover have "g a \<in> set (map g tbl)" using assms(3) by simp
  ultimately have "find (\<lambda>r. stock_id r = stock_id (g a)) (map g tbl) = Some (g a)"
    by (rule find_by_id)
  then show ?thesis by (simp add: refresh_def assms(1))
qed

lemma set_quantity_length [simp]: "length (set_quantity sid v tbl) = length tbl"
  by (simp add: set_quantity_def)

lemma set_quantity_ids [simp]: "map stock_id (set_quantity sid v tbl) = map stock_id tbl"
  by (simp add: set_quantity_def)

lemma set_quantity_nth:
  "i < length tbl \<Longrightarrow>
   set_quantity sid v tbl ! i = (if stock_id (tbl ! i) = sid then (tbl ! i)\<lparr>quantity := v\<rparr> else tbl ! i)"
  by (simp add: set_quantity_def)

lemma set_quantity_sum:
  "distinct (map stock_id tbl) \<Longrightarrow> a \<in> set tbl \<Longrightarrow>
   sum_list (map quantity (set_quantity (stock_id a) v tbl)) = sum_list (map quantity tbl) - quantity a + v"
proof (induction tbl)
  case Nil
  then show ?case by simp
next
  case (Cons s tbl)
  show ?case
  proof (cases "s = a")
    case True
    then have "\<forall>x\<in>set tbl. stock_id x \<noteq> stock_id a"
      using Cons.prems(1) distinct_ids_Cons[of s tbl] by blast
    then have "set_quantity (stock_id a) v tbl = tbl"
      by (auto simp: set_quantity_def intro!: map_idI)
    then show ?thesis using True by (simp add: set_quantity_def)
  next
    case False
    then have "a \<in> set tbl" using Cons.prems(2) by simp
    moreover from this have "stock_id s \<noteq> stock_id a"
      using Cons.prems(1) distinct_ids_Cons[of s tbl a] by simp
    ultimately show ?thesis using Cons by (simp add: set_quantity_def)
  qed
qed

lemma set_quantity_keeps:
  "b \<in> set tbl \<Longrightarrow> stock_id b \<noteq> sid \<Longrightarrow> b \<in> set (set_quantity sid v tbl)"
  by (force simp: set_quantity_def)

lemma set_quantity_nonneg:
  "\<forall>s\<in>set tbl. 0 \<le> quantity s \<Longrightarrow> 0 \<le> v \<Longrightarrow> \<forall>s\<in>set (set_quantity sid v tbl). 0 \<le> quantity s"
  by (auto simp: set_quantity_def)

lemma add_quantity_ids [simp]: "map stock_id (add_quantity sid d tbl) = map stock_id tbl"
  by (simp add: add_quantity_def)

lemma add_quantity_length [simp]: "length (add_quantity sid d tbl) = length tbl"
  by (simp add: add_quantity_def)

lemma add_quantity_nth:
  "i < length tbl \<Longrightarrow>
   add_quantity sid d tbl ! i =
     (if stock_id (tbl ! i) = sid then (tbl ! i)\<lparr>quantity := quantity (tbl ! i) + d\<rparr> else tbl ! i)"
  by (simp add: add_quantity_def)

lemma add_quantity_refresh:
  "distinct (map stock_id tbl) \<Longrightarrow> a \<in> set tbl \<Longrightarrow>
   refresh (add_quantity sid d tbl) a =
     (if stock_id a = sid then a\<lparr>quantity := quantity a + d\<rparr> else a)"
  unfolding add_quantity_def by (subst refresh_map) simp_all

lemma add_quantity_in:
  "a \<in> set tbl \<Longrightarrow>
   (if stock_id a = sid then a\<lparr>quantity := quantity a + d\<rparr> else a) \<in> set (add_quantity sid d tbl)"
  by (force simp: add_quantity_def)

lemma add_quantity_type_sum:
  "distinct (map stock_id tbl) \<Longrightarrow> a \<in> set tbl \<Longrightarrow>
   sum_list (map quantity (filter (\<lambda>s. tree_type_id s = t) (add_quantity (stock_id a) d tbl))) =
   sum_list (map quantity (filter (\<lambda>s. tree_type_id s = t) tbl)) + (if tree_type_id a = t then d else 0)"
proof (induction tbl)
  case Nil
  then show ?case by simp
next
  case (Cons s tbl)
  show ?case
  proof (cases "s = a")
    case True
    then have "\<forall>x\<in>set tbl. stock_id x \<noteq> stock_id a"
      using Cons.prems(1) distinct_ids_Cons[of s tbl] by blast
    then have "add_quantity (stock_id a) d tbl = tbl"
      by (auto simp: add_quantity_def intro!: map_idI)
    then show ?thesis using True by (simp add: add_quantity_def)
  next
    case False
    then have "a \<in> set tbl" using Cons.prems(2) by simp
    moreover from this have "stock_id s \<noteq> stock_id a"
      using Cons.prems(1) distinct_ids_Cons[of s tbl a] by simp
    ultimately show ?thesis using Cons by (simp add: add_quantity_def)
  qed
qed

lemma add_quantity_inverse:
  "add_quantity sid (- d) (add_quantity sid d tbl) = tbl"
  by (auto simp: add_quantity_def intro!: map_idI)

lemma find_first:
  "i < length xs \<Longrightarrow> P (xs ! i) \<Longrightarrow> \<forall>j<i. \<not> P (xs ! j) \<Longrightarrow> find P xs = Some (xs ! i)"
  by (auto simp: find_Some_iff)

lemma writable_storable: "list_all storable_stock new \<Longrightarrow> writable old new"
  by (simp add: writable_def list_all_iff)

lemma writable_same: "writable tbl tbl"
  by (simp add: writable_def list_all_iff)

lemma stored_storable: "stored db \<Longrightarrow> s \<in> set (stocks db) \<Longrightarrow> storable_stock s"
  by (simp add: stored_def list_all_iff)

lemma set_quantity_storable:
  "list_all storable_stock tbl \<Longrightarrow> in_int64 v \<Longrightarrow> list_all storable_stock (set_quantity sid v tbl)"
  by (auto simp: list_all_iff set_quantity_def storable_stock_def)

lemma add_quantity_storable:
  "list_all storable_stock tbl \<Longrightarrow> \<forall>s\<in>set tbl. stock_id s = sid \<longrightarrow> in_int64 (quantity s + d) \<Longrightarrow>
   list_all storable_stock (add_quantity sid d tbl)"
  by (auto simp: list_all_iff add_quantity_def storable_stock_def)

lemma in_int64_between: "in_int64 hi \<Longrightarrow> 0 \<le> v \<Longrightarrow> v \<le> hi \<Longrightarrow> in_int64 v"
  by (simp add: in_int64_def)

subsection \<open>The sale loop\<close>

lemma sale_loop_done: "r \<le> 0 \<Longrightarrow> sale_loop av r tbl = tbl"
  by (cases av) simp_all

lemma sale_loop_length [simp]: "length (sale_loop av r tbl) = length tbl"
  by (induction av r tbl rule: sale_loop.induct) simp_all

lemma sale_loop_ids [simp]: "map stock_id (sale_loop av r tbl) = map stock_id tbl"
  by (induction av r tbl rule: sale_loop.induct) simp_all

lemma sale_loop_nth_other:
  "i < length tbl \<Longrightarrow> stock_id (tbl ! i) \<notin> stock_id ` set av \<Longrightarrow> sale_loop av r tbl ! i = tbl ! i"
  by (induction av r tbl rule: sale_loop.induct) (simp_all add: set_quantity_nth)

lemma sale_loop_other_fields:
  "map (\<lambda>s. s\<lparr>quantity := 0\<rparr>) (sale_loop av r tbl) = map (\<lambda>s. s\<lparr>quantity := 0\<rparr>) tbl"
proof (induction av r tbl rule: sale_loop.induct)
  case (1 r tbl)
  show ?case by simp
next
  case (2 a rest r tbl)
  have "map (\<lambda>s. s\<lparr>quantity := 0\<rparr>) (set_quantity sid v tbl) = map (\<lambda>s. s\<lparr>quantity := 0\<rparr>) tbl" for sid v
    by (simp add: set_quantity_def)
  with 2 show ?case by simp
qed

lemma sum_take_nonneg:
  "\<forall>a\<in>set av. 0 < quantity a \<Longrightarrow> 0 \<le> sum_list (map quantity (take j av))"
  by (rule sum_list_nonneg) (auto dest!: in_set_takeD)

lemma sum_take_step:
  assumes "j < l" and "l \<le> length xs" and "\<forall>x\<in>set xs. (0::int) \<le> x"
  shows "sum_list (take j xs) + xs ! j \<le> sum_list (take l xs)"
proof -
  have "take l xs = take (Suc j) xs @ take (l - Suc j) (drop (Suc j) xs)"
    using assms(1) by (metis Suc_leI le_add_diff_inverse take_add)
  moreover have "take (Suc j) xs = take j xs @ [xs ! j]"
    using assms by (simp add: take_Suc_conv_app_nth)
  moreover have "0 \<le> sum_list (take (l - Suc j) (drop (Suc j) xs))"
    using assms(3) by (intro sum_list_nonneg) (auto dest!: in_set_takeD in_set_dropD)
  ultimately show ?thesis by simp
qed

lemma sale_loop_nth_lot:
  assumes "distinct (map stock_id av)" and "\<forall>a\<in>set av. 0 < quantity a"
    and "i < length tbl" and "j < length av"
    and "stock_id (tbl ! i) = stock_id (av ! j)" and "quantity (tbl ! i) = quantity (av ! j)"
  shows "quantity (sale_loop av r tbl ! i) =
         quantity (av ! j) - min (quantity (av ! j)) (max 0 (r - sum_list (map quantity (take j av))))"
  using assms
proof (induction av arbitrary: r tbl j)
  case Nil
  then show ?case by simp
next
  case (Cons a rest)
  have pos: "0 < quantity a" using Cons.prems(2) by simp
  show ?case
  proof (cases j)
    case 0
    then have ida: "stock_id (tbl ! i) = stock_id a" and qa: "quantity (tbl ! i) = quantity a"
      using Cons.prems by simp_all
    have notin: "stock_id a \<notin> stock_id ` set rest" using Cons.prems(1) by auto
    show ?thesis
    proof (cases "r \<le> 0")
      case True
      then show ?thesis using 0 qa pos by simp
    next
      case False
      show ?thesis
      proof (cases "r \<le> quantity a")
        case True
        then show ?thesis using False 0 ida Cons.prems(3)
          by (simp add: sale_loop_done set_quantity_nth)
      next
        case big: False
        have "sale_loop rest (r - quantity a) (set_quantity (stock_id a) 0 tbl) ! i
              = set_quantity (stock_id a) 0 tbl ! i"
          using notin ida Cons.prems(3) by (intro sale_loop_nth_other) (simp_all add: set_quantity_nth)
        then show ?thesis using False big 0 ida Cons.prems(3)
          by (simp add: set_quantity_nth)
      qed
    qed
  next
    case (Suc k)
    then have k: "k < length rest" and idk: "stock_id (tbl ! i) = stock_id (rest ! k)"
      and qk: "quantity (tbl ! i) = quantity (rest ! k)"
      using Cons.prems by simp_all
    have neq: "stock_id (tbl ! i) \<noteq> stock_id a"
      using Cons.prems(1) k idk by (metis distinct.simps(2) list.simps(9) nth_map nth_mem length_map)
    have nn: "0 \<le> sum_list (map quantity (take k rest))"
      using Cons.prems(2) by (intro sum_take_nonneg) simp
    have posk: "0 < quantity (rest ! k)" using Cons.prems(2) k by simp
    have d: "distinct (map stock_id rest)" and p: "\<forall>a\<in>set rest. 0 < quantity a"
      using Cons.prems by simp_all
    show ?thesis
    proof (cases "r \<le> 0")
      case True
      then show ?thesis using Suc qk nn pos posk by simp
    next
      case False
      show ?thesis
      proof (cases "r \<le> quantity a")
        case True
        then show ?thesis using False Suc neq qk nn posk Cons.prems(3)
          by (simp add: sale_loop_done set_quantity_nth)
      next
        case big: False
        let ?tbl = "set_quantity (stock_id a) 0 tbl"
        have "quantity (sale_loop rest (r - quantity a) ?tbl ! i) =
              quantity (rest ! k) - min (quantity (rest ! k))
                (max 0 (r - quantity a - sum_list (map quantity (take k rest))))"
          using neq idk qk Cons.prems(3) k
          by (intro Cons.IH[OF d p]) (simp_all add: set_quantity_nth)
        then show ?thesis using False big Suc by (simp add: algebra_simps)
      qed
    qed
  qed
qed

lemma sale_loop_sum:
  assumes "distinct (map stock_id tbl)" and "distinct (map stock_id av)" and "set av \<subseteq> set tbl"
    and "\<forall>a\<in>set av. 0 < quantity a" and "0 \<le> r"
  shows "sum_list (map quantity (sale_loop av r tbl)) =
         sum_list (map quantity tbl) - min r (sum_list (map quantity av))"
  using assms
proof (induction av arbitrary: r tbl)
  case Nil
  then show ?case by simp
next
  case (Cons a rest)
  have nn: "0 \<le> sum_list (map quantity rest)"
    using Cons.prems(4) by (intro sum_list_nonneg) auto
  have a: "a \<in> set tbl" and pos: "0 < quantity a" using Cons.prems by simp_all
  show ?case
  proof (cases "r \<le> 0")
    case True
    then show ?thesis using Cons.prems(5) nn pos by simp
  next
    case False
    show ?thesis
    proof (cases "r \<le> quantity a")
      case True
      then show ?thesis using False nn set_quantity_sum[OF Cons.prems(1) a]
        by (simp add: sale_loop_done)
    next
      case big: False
      let ?tbl = "set_quantity (stock_id a) 0 tbl"
      have sub: "set rest \<subseteq> set ?tbl"
      proof
        fix b assume b: "b \<in> set rest"
        then have "stock_id b \<noteq> stock_id a" using Cons.prems(2) by (rule distinct_ids_Cons[rotated])
        moreover have "b \<in> set tbl" using b Cons.prems(3) by auto
        ultimately show "b \<in> set ?tbl" by (rule set_quantity_keeps[rotated])
      qed
      have "sum_list (map quantity (sale_loop rest (r - quantity a) ?tbl)) =
            sum_list (map quantity ?tbl) - min (r - quantity a) (sum_list (map quantity rest))"
        using Cons.prems big sub by (intro Cons.IH) simp_all
      then show ?thesis using False big set_quantity_sum[OF Cons.prems(1) a, of 0]
        by simp
    qed
  qed
qed

lemma sale_loop_nonneg:
  "\<forall>s\<in>set tbl. 0 \<le> quantity s \<Longrightarrow> \<forall>s\<in>set (sale_loop av r tbl). 0 \<le> quantity s"
proof (induction av arbitrary: r tbl)
  case Nil
  then show ?case by simp
next
  case (Cons a rest)
  show ?case
  proof (cases "r \<le> 0")
    case True
    then show ?thesis using Cons.prems by simp
  next
    case False
    show ?thesis
    proof (cases "r \<le> quantity a")
      case True
      then show ?thesis
        using False Cons.IH[OF set_quantity_nonneg[OF Cons.prems, of "quantity a - r" "stock_id a"]]
        by simp
    next
      case big: False
      then show ?thesis
        using False Cons.IH[OF set_quantity_nonneg[OF Cons.prems, of 0 "stock_id a"]]
        by simp
    qed
  qed
qed

lemma sale_loop_storable:
  "list_all storable_stock tbl \<Longrightarrow> \<forall>a\<in>set av. 0 < quantity a \<and> in_int64 (quantity a) \<Longrightarrow>
   list_all storable_stock (sale_loop av r tbl)"
proof (induction av arbitrary: r tbl)
  case Nil
  then show ?case by simp
next
  case (Cons a rest)
  have a: "0 < quantity a" "in_int64 (quantity a)" using Cons.prems(2) by simp_all
  have rest: "\<forall>a\<in>set rest. 0 < quantity a \<and> in_int64 (quantity a)" using Cons.prems(2) by simp
  show ?case
  proof (cases "r \<le> 0")
    case True
    then show ?thesis using Cons.prems(1) by simp
  next
    case False
    show ?thesis
    proof (cases "r \<le> quantity a")
      case True
      have "in_int64 (quantity a - r)"
        using False True by (intro in_int64_between[OF a(2)]) simp_all
      then have "list_all storable_stock (set_quantity (stock_id a) (quantity a - r) tbl)"
        by (rule set_quantity_storable[OF Cons.prems(1)])
      then have "list_all storable_stock
                   (sale_loop rest 0 (set_quantity (stock_id a) (quantity a - r) tbl))"
        using rest by (rule Cons.IH)
      moreover have "sale_loop (a # rest) r tbl
                     = sale_loop rest 0 (set_quantity (stock_id a) (quantity a - r) tbl)"
        using False True by simp
      ultimately show ?thesis by (simp only:)
    next
      case big: False
      have "in_int64 0" by (simp add: in_int64_def)
      then have "list_all storable_stock (set_quantity (stock_id a) 0 tbl)"
        by (rule set_quantity_storable[OF Cons.prems(1)])
      then have "list_all storable_stock
                   (sale_loop rest (r - quantity a) (set_quantity (stock_id a) 0 tbl))"
        using rest by (rule Cons.IH)
      moreover have "sale_loop (a # rest) r tbl
                     = sale_loop rest (r - quantity a) (set_quantity (stock_id a) 0 tbl)"
        using False big by simp
      ultimately show ?thesis by (simp only:)
    qed
  qed
qed

lemma available_set:
  "set (available_stock_entries db tid) = {s \<in> set (stocks db). tree_type_id s = tid \<and> 0 < quantity s}"
  by (auto simp: available_stock_entries_def)

lemma available_sorted: "sorted (map date_added (available_stock_entries db tid))"
  by (simp add: available_stock_entries_def)

lemma available_distinct:
  "distinct (map stock_id (stocks db)) \<Longrightarrow> distinct (map stock_id (available_stock_entries db tid))"
  by (auto simp: available_stock_entries_def distinct_map intro: inj_on_subset)

lemma sum_list_sort_key: "sum_list (map (g::'a \<Rightarrow> int) (sort_key f xs)) = sum_list (map g xs)"
proof -
  have "mset (map g (sort_key f xs)) = mset (map g xs)" by simp
  then have "sum_mset (mset (map g (sort_key f xs))) = sum_mset (mset (map g xs))" by simp
  then show ?thesis by (simp only: sum_mset_sum_list)
qed

lemma total_available_query:
  "sum_list (map quantity (available_stock_entries db tid)) = total_available db tid"
  by (simp add: available_stock_entries_def total_available_def sum_list_sort_key)

subsection \<open>The three outcomes of a transfer that is accepted\<close>

lemma move_alias:
  fixes db :: "'f db"
  assumes st: "stored db"
    and src: "get_stock_by_id db sid = Inr (Some src)"
    and le: "q \<le> quantity src"
    and dst: "find (\<lambda>s. tree_type_id s = tree_type_id src \<and> location_id s = lid) (stocks db) = Some d"
    and same: "stock_id d = sid"
  shows "d = src" and "move_stock_quantity now db sid lid q = (Inr (Some (src, src)), db)"
proof -
  have ids: "distinct (map stock_id (stocks db))" using st by (simp add: stored_def)
  have s: "src \<in> set (stocks db)" "stock_id src = sid" using get_stock_by_id_SomeD[OF src] by simp_all
  have d: "d \<in> set (stocks db)" "location_id d = lid" using dst by (auto simp: find_Some_iff)
  show eq: "d = src" using ids s same d(1) by (intro distinct_ids_eq[of "stocks db"]) simp_all
  have fit: "in_int64 (tree_type_id src)" "in_int64 lid"
    using stored_storable[OF st s(1)] d(2) eq by (simp_all add: storable_stock_def)
  have "refresh (stocks db) src = src"
    using find_by_id[OF ids s(1)] by (simp add: refresh_def)
  then show "move_stock_quantity now db sid lid q = (Inr (Some (src, src)), db)"
    using src le dst eq s(2) fit
    by (simp add: move_stock_quantity_def add_quantity_inverse writable_same)
qed

lemma move_existing:
  fixes db :: "'f db"
  assumes st: "stored db"
    and src: "get_stock_by_id db sid = Inr (Some src)"
    and le: "q \<le> quantity src"
    and dst: "find (\<lambda>s. tree_type_id s = tree_type_id src \<and> location_id s = lid) (stocks db) = Some d"
    and other: "stock_id d \<noteq> sid"
    and lid: "in_int64 lid"
    and fit_s: "in_int64 (quantity src - q)"
    and fit_d: "in_int64 (quantity d + q)"
  shows "move_stock_quantity now db sid lid q =
         (Inr (Some (src\<lparr>quantity := quantity src - q\<rparr>, d\<lparr>quantity := quantity d + q\<rparr>)),
          db\<lparr>stocks := add_quantity sid (- q) (add_quantity (stock_id d) q (stocks db))\<rparr>)"
proof -
  have ids: "distinct (map stock_id (stocks db))" and all: "list_all storable_stock (stocks db)"
    using st by (simp_all add: stored_def)
  have s: "src \<in> set (stocks db)" "stock_id src = sid" using get_stock_by_id_SomeD[OF src] by simp_all
  have d: "d \<in> set (stocks db)" using dst by (auto simp: find_Some_iff)
  have ty: "in_int64 (tree_type_id src)"
    using stored_storable[OF st s(1)] by (simp add: storable_stock_def)
  let ?t1 = "add_quantity (stock_id d) q (stocks db)"
  have "\<forall>x\<in>set (stocks db). stock_id x = stock_id d \<longrightarrow> in_int64 (quantity x + q)"
    using distinct_ids_eq[OF ids _ d] fit_d by blast
  then have all1: "list_all storable_stock ?t1" by (rule add_quantity_storable[OF all])
  have "\<forall>x\<in>set ?t1. stock_id x = sid \<longrightarrow> in_int64 (quantity x + - q)"
  proof (intro ballI impI)
    fix x assume x: "x \<in> set ?t1" "stock_id x = sid"
    then obtain y where y: "y \<in> set (stocks db)"
      "x = (if stock_id y = stock_id d then y\<lparr>quantity := quantity y + q\<rparr> else y)"
      by (auto simp: add_quantity_def)
    then have "stock_id y = sid" using x(2) by (simp split: if_splits)
    then have "y = src" using distinct_ids_eq[OF ids y(1) s(1)] s(2) by simp
    then show "in_int64 (quantity x + - q)" using y(2) other s(2) fit_s by simp
  qed
  then have "list_all storable_stock (add_quantity sid (- q) ?t1)"
    by (rule add_quantity_storable[OF all1])
  then have w: "writable (stocks db) (add_quantity sid (- q) ?t1)" by (rule writable_storable)
  have "refresh (add_quantity sid (- q) (add_quantity (stock_id d) q (stocks db))) src
        = src\<lparr>quantity := quantity src - q\<rparr>"
    unfolding add_quantity_def map_map using ids s other
    by (subst refresh_map) (simp_all add: comp_def)
  moreover have "refresh (add_quantity sid (- q) (add_quantity (stock_id d) q (stocks db))) d
        = d\<lparr>quantity := quantity d + q\<rparr>"
    unfolding add_quantity_def map_map using ids d other
    by (subst refresh_map) (simp_all add: comp_def)
  ultimately show ?thesis
    using src le dst s(2) lid ty w by (simp add: move_stock_quantity_def)
qed

lemma move_new:
  fixes db :: "'f db"
  assumes st: "stored db"
    and src: "get_stock_by_id db sid = Inr (Some src)"
    and le: "q \<le> quantity src"
    and dst: "find (\<lambda>s. tree_type_id s = tree_type_id src \<and> location_id s = lid) (stocks db) = None"
    and lid: "in_int64 lid"
    and fit_s: "in_int64 (quantity src - q)"
    and fit_q: "in_int64 q"
    and key: "in_int64 (next_id (map stock_id (stocks db)))"
  shows "move_stock_quantity now db sid lid q =
         (Inr (Some (src\<lparr>quantity := quantity src - q\<rparr>,
                \<lparr>stock_id = next_id (map stock_id (stocks db)), tree_type_id = tree_type_id src,
                 location_id = lid, quantity = q, date_added = now,
                 cost_per_seedling = cost_per_seedling src\<rparr>)),
          db\<lparr>stocks := add_quantity sid (- q) (stocks db) @
                 [\<lparr>stock_id = next_id (map stock_id (stocks db)), tree_type_id = tree_type_id src,
                   location_id = lid, quantity = q, date_added = now,
                   cost_per_seedling = cost_per_seedling src\<rparr>]\<rparr>)"
proof -
  define new :: "'f stock" where
    "new = \<lparr>stock_id = next_id (map stock_id (stocks db)), tree_type_id = tree_type_id src,
            location_id = lid, quantity = q, date_added = now,
            cost_per_seedling = cost_per_seedling src\<rparr>"
  have ids: "distinct (map stock_id (stocks db))" and all: "list_all storable_stock (stocks db)"
    using st by (simp_all add: stored_def)
  have s: "src \<in> set (stocks db)" "stock_id src = sid" using get_stock_by_id_SomeD[OF src] by simp_all
  have ty: "in_int64 (tree_type_id src)"
    using stored_storable[OF st s(1)] by (simp add: storable_stock_def)
  have fresh: "stock_id new \<notin> set (map stock_id (stocks db))"
    unfolding new_def using next_id_fresh[of "map stock_id (stocks db)"] by simp
  then have neq: "stock_id new \<noteq> sid" using s by auto
  let ?t1 = "stocks db @ [new]"
  have ids1: "distinct (map stock_id ?t1)" using ids fresh by simp
  have t2: "add_quantity sid (- q) ?t1 = add_quantity sid (- q) (stocks db) @ [new]"
    using neq by (simp add: add_quantity_def)
  have "\<forall>x\<in>set (stocks db). stock_id x = sid \<longrightarrow> in_int64 (quantity x + - q)"
    using distinct_ids_eq[OF ids _ s(1)] s(2) fit_s by auto
  then have "list_all storable_stock (add_quantity sid (- q) (stocks db))"
    by (rule add_quantity_storable[OF all])
  moreover have "storable_stock new"
    using key ty lid fit_q by (simp add: storable_stock_def new_def)
  ultimately have "list_all storable_stock (add_quantity sid (- q) ?t1)" by (simp add: t2)
  then have w: "writable (stocks db) (add_quantity sid (- q) ?t1)" by (rule writable_storable)
  have "refresh (add_quantity sid (- q) ?t1) src = src\<lparr>quantity := quantity src - q\<rparr>"
    using add_quantity_refresh[OF ids1, of src sid "- q"] s by simp
  moreover have "refresh (add_quantity sid (- q) ?t1) new = new"
    using add_quantity_refresh[OF ids1, of new sid "- q"] neq by simp
  ultimately have "move_stock_quantity now db sid lid q =
     (Inr (Some (src\<lparr>quantity := quantity src - q\<rparr>, new)),
      db\<lparr>stocks := add_quantity sid (- q) (stocks db) @ [new]\<rparr>)"
    using src le dst s(2) t2 lid ty w
    by (simp add: move_stock_quantity_def Let_def new_def[symmetric])
  then show ?thesis by (simp add: new_def)
qed

lemma move_existing_total:
  assumes ids: "distinct (map stock_id tbl)" and s: "src \<in> set tbl" and d: "d \<in> set tbl"
    and other: "stock_id d \<noteq> stock_id src" and ty: "tree_type_id d = tree_type_id src"
  shows "sum_list (map quantity (filter (\<lambda>s. tree_type_id s = t)
           (add_quantity (stock_id src) (- q) (add_quantity (stock_id d) q tbl)))) =
         sum_list (map quantity (filter (\<lambda>s. tree_type_id s = t) tbl))"
proof -
  let ?t1 = "add_quantity (stock_id d) q tbl"
  have ids1: "distinct (map stock_id ?t1)" using ids by simp
  have s1: "src \<in> set ?t1" using add_quantity_in[OF s, of "stock_id d" q] other by simp
  show ?thesis
    using add_quantity_type_sum[OF ids1 s1, of t "- q"] add_quantity_type_sum[OF ids d, of t q] ty
    by simp
qed

lemma move_new_total:
  assumes ids: "distinct (map stock_id tbl)" and s: "src \<in> set tbl"
    and ty: "tree_type_id new = tree_type_id src" and qn: "quantity new = q"
  shows "sum_list (map quantity (filter (\<lambda>s. tree_type_id s = t)
           (add_quantity (stock_id src) (- q) tbl @ [new]))) =
         sum_list (map quantity (filter (\<lambda>s. tree_type_id s = t) tbl))"
  using add_quantity_type_sum[OF ids s, of t "- q"] ty qn by simp

subsection \<open>Sequences of commands\<close>

lemma move_stocks:
  fixes db :: "'f db"
  shows "stocks (snd (move_stock_quantity now db sid lid q)) = stocks db
   \<or> (\<exists>src. get_stock_by_id db sid = Inr (Some src) \<and> q \<le> quantity src
        \<and> (case find (\<lambda>s. tree_type_id s = tree_type_id src \<and> location_id s = lid) (stocks db) of
              Some d \<Rightarrow> stocks (snd (move_stock_quantity now db sid lid q))
                        = add_quantity sid (- q) (add_quantity (stock_id d) q (stocks db))
            | None \<Rightarrow> stocks (snd (move_stock_quantity now db sid lid q))
                        = add_quantity sid (- q)
                            (stocks db @
                               [\<lparr>stock_id = next_id (map stock_id (stocks db)),
                                 tree_type_id = tree_type_id src, location_id = lid, quantity = q,
                                 date_added = now, cost_per_seedling = cost_per_seedling src\<rparr>])))"
proof (cases "get_stock_by_id db sid")
  case (Inl e)
  then show ?thesis by (simp add: move_stock_quantity_def)
next
  case (Inr found)
  show ?thesis
  proof (cases found)
    case None
    then show ?thesis using Inr by (simp add: move_stock_quantity_def)
  next
    case (Some src)
    have s: "stock_id src = sid" using get_stock_by_id_SomeD[of db sid src] Inr Some by simp
    show ?thesis
    proof (cases "q \<le> quantity src")
      case False
      then show ?thesis using Inr Some by (simp add: move_stock_quantity_def)
    next
      case True
      then show ?thesis using Inr Some s
        by (simp add: move_stock_quantity_def Let_def split: option.splits)
    qed
  qed
qed

lemma exec_ids:
  "map stock_id (stocks (exec fmul op db)) = map stock_id (stocks db)
   \<or> map stock_id (stocks (exec fmul op db))
     = map stock_id (stocks db) @ [next_id (map stock_id (stocks db))]"
proof (cases op)
  case (Add now t l q c)
  then show ?thesis by (simp add: add_stock_entry_def Let_def)
next
  case (Move now sid l q)
  then show ?thesis
    using move_stocks[of now db sid l q] by (auto split: option.splits)
next
  case (Sale now t q)
  then show ?thesis by (simp add: record_sale_def Let_def split: sum.splits option.splits)
next
  case (Update sid q)
  then show ?thesis by (simp add: update_stock_quantity_def Let_def split: sum.splits option.splits)
qed

lemma exec_keeps_rows:
  "prefix (map stock_id (stocks db)) (map stock_id (stocks (exec fmul op db)))"
  using exec_ids[of fmul op db] by auto

lemma run_keeps_rows:
  "prefix (map stock_id (stocks db)) (map stock_id (stocks (run fmul ops db)))"
proof (induction ops arbitrary: db)
  case Nil
  show ?case by simp
next
  case (Cons op ops)
  show ?case using exec_keeps_rows[of db fmul op] Cons[of "exec fmul op db"]
    by (auto intro: prefix_order.trans)
qed

lemma exec_distinct:
  "distinct (map stock_id (stocks db)) \<Longrightarrow> distinct (map stock_id (stocks (exec fmul op db)))"
  using exec_ids[of fmul op db] next_id_fresh[of "map stock_id (stocks db)"] by auto

lemma move_nonneg:
  fixes db :: "'f db"
  assumes ids: "distinct (map stock_id (stocks db))"
    and nn: "\<forall>s\<in>set (stocks db). 0 \<le> quantity s"
    and pos: "0 < q"
  shows "\<forall>s\<in>set (stocks (snd (move_stock_quantity now db sid lid q))). 0 \<le> quantity s"
proof -
  let ?db' = "snd (move_stock_quantity now db sid lid q)"
  have dec: "0 \<le> quantity x" if "x \<in> set (add_quantity sid (- q) tbl)"
    and "\<forall>s\<in>set tbl. 0 \<le> quantity s" and "\<forall>s\<in>set tbl. stock_id s = sid \<longrightarrow> q \<le> quantity s"
  for x and tbl :: "'f stock list"
    using that by (auto simp: add_quantity_def split: if_splits)
  consider (same) "stocks ?db' = stocks db"
    | (moved) src where "get_stock_by_id db sid = Inr (Some src)" "q \<le> quantity src"
        "case find (\<lambda>s. tree_type_id s = tree_type_id src \<and> location_id s = lid) (stocks db) of
           Some d \<Rightarrow> stocks ?db' = add_quantity sid (- q) (add_quantity (stock_id d) q (stocks db))
         | None \<Rightarrow> stocks ?db' = add_quantity sid (- q)
             (stocks db @
                [\<lparr>stock_id = next_id (map stock_id (stocks db)),
                  tree_type_id = tree_type_id src, location_id = lid, quantity = q,
                  date_added = now, cost_per_seedling = cost_per_seedling src\<rparr>])"
    using move_stocks[of now db sid lid q] by blast
  then show ?thesis
  proof cases
    case same
    then show ?thesis using nn by simp
  next
    case (moved src)
    have s: "src \<in> set (stocks db)" "stock_id src = sid"
      using get_stock_by_id_SomeD[OF moved(1)] by simp_all
    have only: "\<forall>s\<in>set (stocks db). stock_id s = sid \<longrightarrow> q \<le> quantity s"
    proof (intro ballI impI)
      fix x assume "x \<in> set (stocks db)" "stock_id x = sid"
      then have "x = src" using ids s by (intro distinct_ids_eq[of "stocks db"]) simp_all
      then show "q \<le> quantity x" using moved(2) by simp
    qed
    let ?P = "\<lambda>s. tree_type_id s = tree_type_id src \<and> location_id s = lid"
    show ?thesis
    proof (cases "find ?P (stocks db)")
      case None
      let ?new = "\<lparr>stock_id = next_id (map stock_id (stocks db)),
                  tree_type_id = tree_type_id src, location_id = lid, quantity = q,
                  date_added = now, cost_per_seedling = cost_per_seedling src\<rparr>"
      have fresh: "stock_id ?new \<noteq> sid"
        using next_id_fresh[of "map stock_id (stocks db)"] s by auto
      have nn1: "\<forall>s\<in>set (stocks db @ [?new]). 0 \<le> quantity s" using nn pos by simp
      have only1: "\<forall>s\<in>set (stocks db @ [?new]). stock_id s = sid \<longrightarrow> q \<le> quantity s"
        using only fresh by simp
      have "0 \<le> quantity x" if "x \<in> set (add_quantity sid (- q) (stocks db @ [?new]))" for x
        using dec[OF that nn1 only1] .
      then show ?thesis using moved(3) None by simp
    next
      case (Some d)
      show ?thesis
      proof (cases "stock_id d = sid")
        case True
        then have "stocks ?db' = stocks db"
          using moved(3) Some by (simp add: add_quantity_inverse)
        then show ?thesis using nn by simp
      next
        case False
        let ?t1 = "add_quantity (stock_id d) q (stocks db)"
        have nn1: "\<forall>s\<in>set ?t1. 0 \<le> quantity s"
          using nn pos by (auto simp: add_quantity_def)
        have only1: "\<forall>s\<in>set ?t1. stock_id s = sid \<longrightarrow> q \<le> quantity s"
          using only False by (auto simp: add_quantity_def)
        have "0 \<le> quantity x" if "x \<in> set (add_quantity sid (- q) ?t1)" for x
          using dec[OF that nn1 only1] .
        then show ?thesis using moved(3) Some by simp
      qed
    qed
  qed
qed

lemma exec_nonneg:
  assumes "distinct (map stock_id (stocks db))"
    and "\<forall>s\<in>set (stocks db). 0 \<le> quantity s"
    and "precondition op" and "update_not_negative op"
  shows "\<forall>s\<in>set (stocks (exec fmul op db)). 0 \<le> quantity s"
proof (cases op)
  case (Add now t l q c)
  then show ?thesis using assms by (simp add: add_stock_entry_def Let_def)
next
  case (Move now sid l q)
  then show ?thesis using assms move_nonneg[of db q now sid l] by simp
next
  case (Sale now t q)
  then show ?thesis using assms(2) sale_loop_nonneg[of "stocks db"]
    by (simp add: record_sale_def Let_def split: sum.splits option.splits)
next
  case (Update sid q)
  then show ?thesis using assms(2,4)
    by (auto simp: update_stock_quantity_def Let_def set_quantity_def
        split: sum.splits option.splits)
qed

subsection \<open>Dates and the order of the sales history\<close>

lemma midnight_le: "midnight s \<le> t \<longleftrightarrow> s \<le> fst t"
  by (cases t) (auto simp: midnight_def)

lemma less_midnight_next: "t < midnight (e + 1) \<longleftrightarrow> fst t \<le> e"
  by (cases t) (auto simp: midnight_def)

lemma order_by_date_desc_sorted:
  "sorted_wrt (\<lambda>a b. transaction_date b \<le> transaction_date a) (order_by_date_desc txs)"
proof -
  have "sorted (map transaction_date (sort_key transaction_date txs))" by simp
  then have "sorted_wrt (\<lambda>a b. transaction_date a \<le> transaction_date b)
               (sort_key transaction_date txs)"
    by (simp add: sorted_wrt_map)
  then show ?thesis by (simp add: order_by_date_desc_def sorted_wrt_rev)
qed

lemma order_by_date_desc_mset: "mset (order_by_date_desc txs) = mset txs"
  by (simp add: order_by_date_desc_def)

section \<open>Properties of the ledger\<close>

subsection \<open>Sales\<close>

text \<open>
  Claim C1, as amended. Let the database be as SQLite holds it, with a next key for the
  transaction table; let the tree type exist, and let the requested quantity be at
  least 0, less than \<open>2^63\<close>, and at most the total of the lots of that type with a
  positive quantity. Then \<open>record_sale\<close>
  returns a transaction and appends exactly that one transaction; its \<open>total_amount\<close> is
  the unit price times the quantity sold. The stock table keeps its rows in place, with
  only quantities changed, and the decrements add up to the requested quantity. A lot
  that is not available (another type, or no positive quantity) is untouched. Along the
  available lots \<open>av\<close> in ascending order of \<open>date_added\<close>, lot \<open>j\<close> loses
  \<open>min (its quantity) (max 0 (q - the quantities before it))\<close>: each lot is drained to
  zero before the next one is touched. In particular, whenever a lot has lost anything,
  every available lot with a strictly earlier \<open>date_added\<close> is at zero.
\<close>

theorem record_sale_fifo:
  fixes db :: "'f db"
  assumes wf: "stored db"
    and key: "in_int64 (next_id (map tx_id (transactions db)))"
    and tt: "get_tree_type_by_id db tid = Inr (Some tt)"
    and q0: "0 \<le> q"
    and fits: "q < 2 ^ 63"
    and enough: "q \<le> total_available db tid"
  shows "\<exists>tx db'. record_sale fmul now db tid q = (Inr (Some tx), db')
    \<and> transactions db' = transactions db @ [tx]
    \<and> tx_tree_type_id tx = tid \<and> quantity_sold tx = q
    \<and> unit_sale_price_at_time_of_sale tx = base_unit_price tt
    \<and> total_amount tx = fmul (base_unit_price tt) q
    \<and> tree_types db' = tree_types db \<and> locations db' = locations db
    \<and> map (\<lambda>s. s\<lparr>quantity := 0\<rparr>) (stocks db') = map (\<lambda>s. s\<lparr>quantity := 0\<rparr>) (stocks db)
    \<and> sum_list (map quantity (stocks db)) - sum_list (map quantity (stocks db')) = q
    \<and> (\<forall>i<length (stocks db).
          \<not> (tree_type_id (stocks db ! i) = tid \<and> 0 < quantity (stocks db ! i))
          \<longrightarrow> stocks db' ! i = stocks db ! i)
    \<and> (let av = available_stock_entries db tid in
          sorted (map date_added av)
          \<and> (\<forall>i<length (stocks db). \<forall>j<length av. stocks db ! i = av ! j \<longrightarrow>
                quantity (stocks db' ! i) =
                quantity (av ! j) - min (quantity (av ! j))
                                      (max 0 (q - sum_list (map quantity (take j av))))))
    \<and> (\<forall>i<length (stocks db). \<forall>k<length (stocks db).
          tree_type_id (stocks db ! i) = tid \<and> 0 < quantity (stocks db ! i)
          \<and> tree_type_id (stocks db ! k) = tid \<and> 0 < quantity (stocks db ! k)
          \<and> date_added (stocks db ! i) < date_added (stocks db ! k)
          \<and> quantity (stocks db' ! k) < quantity (stocks db ! k)
          \<longrightarrow> quantity (stocks db' ! i) = 0)"
proof -
  define av where "av = available_stock_entries db tid"
  define tbl where "tbl = sale_loop av q (stocks db)"
  define tx :: "'f transaction" where
    "tx = \<lparr>tx_id = next_id (map tx_id (transactions db)), tx_tree_type_id = tid,
           quantity_sold = q, unit_sale_price_at_time_of_sale = base_unit_price tt,
           total_amount = fmul (base_unit_price tt) q, transaction_date = now\<rparr>"
  define db' where "db' = db\<lparr>stocks := tbl, transactions := transactions db @ [tx]\<rparr>"
  have ids: "distinct (map stock_id (stocks db))" and all: "list_all storable_stock (stocks db)"
    using wf by (simp_all add: stored_def)
  have tot: "sum_list (map quantity av) = total_available db tid"
    unfolding av_def by (rule total_available_query)
  have av_set: "set av = {s \<in> set (stocks db). tree_type_id s = tid \<and> 0 < quantity s}"
    unfolding av_def by (rule available_set)
  have av_pos: "\<forall>a\<in>set av. 0 < quantity a" using av_set by simp
  have "\<forall>a\<in>set av. 0 < quantity a \<and> in_int64 (quantity a)"
    using av_set stored_storable[OF wf] by (simp add: storable_stock_def)
  then have "list_all storable_stock tbl"
    unfolding tbl_def by (rule sale_loop_storable[OF all])
  then have w: "writable (stocks db) tbl" by (rule writable_storable)
  have "in_int64 tid" using tt by (simp add: get_tree_type_by_id_def split: if_splits)
  moreover have "in_int64 q" using q0 fits by (simp add: in_int64_def)
  ultimately have stx: "storable_transaction tx"
    using key by (simp add: storable_transaction_def tx_def)
  have run: "record_sale fmul now db tid q = (Inr (Some tx), db')"
    using tt enough tot w stx
    by (simp add: record_sale_def Let_def av_def[symmetric] tbl_def[symmetric] tx_def[symmetric]
        db'_def)
  have av_ids: "distinct (map stock_id av)"
    unfolding av_def using ids by (rule available_distinct)
  have av_sorted: "sorted (map date_added av)"
    unfolding av_def by (rule available_sorted)
  have st: "stocks db' = tbl" by (simp add: db'_def)
  have frame: "map (\<lambda>s. s\<lparr>quantity := 0\<rparr>) tbl = map (\<lambda>s. s\<lparr>quantity := 0\<rparr>) (stocks db)"
    unfolding tbl_def by (rule sale_loop_other_fields)
  have total: "sum_list (map quantity (stocks db)) - sum_list (map quantity tbl) = q"
  proof -
    have "sum_list (map quantity tbl) =
          sum_list (map quantity (stocks db)) - min q (sum_list (map quantity av))"
      unfolding tbl_def using ids av_ids av_pos q0 av_set by (intro sale_loop_sum) auto
    then show ?thesis using enough tot by simp
  qed
  have other: "tbl ! i = stocks db ! i"
    if "i < length (stocks db)"
      and "\<not> (tree_type_id (stocks db ! i) = tid \<and> 0 < quantity (stocks db ! i))" for i
  proof -
    have "stock_id (stocks db ! i) \<notin> stock_id ` set av"
    proof
      assume "stock_id (stocks db ! i) \<in> stock_id ` set av"
      then obtain a where a: "a \<in> set av" "stock_id (stocks db ! i) = stock_id a" by auto
      then have "a \<in> set (stocks db)" using av_set by simp
      then have "stocks db ! i = a"
        using ids that(1) a(2) by (intro distinct_ids_eq[of "stocks db"]) simp_all
      then show False using a(1) av_set that(2) by simp
    qed
    then show ?thesis unfolding tbl_def using that(1) by (intro sale_loop_nth_other)
  qed
  have lot: "quantity (tbl ! i) =
             quantity (av ! j) - min (quantity (av ! j))
                                   (max 0 (q - sum_list (map quantity (take j av))))"
    if "i < length (stocks db)" and "j < length av" and "stocks db ! i = av ! j" for i j
    unfolding tbl_def using av_ids av_pos that by (intro sale_loop_nth_lot) simp_all
  have index: "\<exists>j<length av. stocks db ! i = av ! j"
    if "i < length (stocks db)" and "tree_type_id (stocks db ! i) = tid"
      and "0 < quantity (stocks db ! i)" for i
  proof -
    have "stocks db ! i \<in> set av" using that av_set by simp
    then show ?thesis by (metis in_set_conv_nth)
  qed
  have fifo: "quantity (tbl ! i) = 0"
    if i: "i < length (stocks db)" and k: "k < length (stocks db)"
      and ai: "tree_type_id (stocks db ! i) = tid" "0 < quantity (stocks db ! i)"
      and ak: "tree_type_id (stocks db ! k) = tid" "0 < quantity (stocks db ! k)"
      and older: "date_added (stocks db ! i) < date_added (stocks db ! k)"
      and touched: "quantity (tbl ! k) < quantity (stocks db ! k)" for i k
  proof -
    obtain j where j: "j < length av" "stocks db ! i = av ! j" using index[OF i ai] by blast
    obtain l where l: "l < length av" "stocks db ! k = av ! l" using index[OF k ak] by blast
    have "j < l"
    proof (rule ccontr)
      assume "\<not> j < l"
      then have "l \<le> j" by simp
      then have "map date_added av ! l \<le> map date_added av ! j"
        using av_sorted j(1) by (intro sorted_nth_mono) simp_all
      then show False using older j l by simp
    qed
    have nn: "\<forall>x\<in>set (map quantity av). 0 \<le> x" using av_pos by auto
    have step: "sum_list (take j (map quantity av)) + map quantity av ! j
                \<le> sum_list (take l (map quantity av))"
      using \<open>j < l\<close> l(1) nn by (intro sum_take_step) simp_all
    have "0 < min (quantity (av ! l)) (max 0 (q - sum_list (map quantity (take l av))))"
      using touched lot[OF k l] l(2) by simp
    then have "sum_list (map quantity (take l av)) < q" by (simp add: max_def split: if_splits)
    then have "quantity (av ! j) \<le> q - sum_list (map quantity (take j av))"
      using step j(1) by (simp add: take_map)
    then show ?thesis using lot[OF i j] by simp
  qed
  show ?thesis
    apply (rule exI[of _ tx], rule exI[of _ db'])
    apply (intro conjI)
               apply (rule run)
              apply (simp add: db'_def)
             apply (simp add: tx_def)
            apply (simp add: tx_def)
           apply (simp add: tx_def)
          apply (simp add: tx_def)
         apply (simp add: db'_def)
        apply (simp add: db'_def)
       apply (simp only: st frame)
      apply (simp only: st total)
     apply (simp only: st) using other apply blast
    apply (simp only: st Let_def av_def[symmetric]) using av_sorted lot apply blast
    apply (simp only: st) using fifo apply blast
    done
qed

text \<open>
  The example of the specification: selling 12 from lots of 10 (day 1) and 5 (day 2)
  leaves 0 and 3 and records one transaction of 12 at 2.5 each.
\<close>

theorem record_sale_fifo_witness:
  "stored nursery \<and> in_int64 (next_id (map tx_id (transactions nursery)))
   \<and> get_tree_type_by_id nursery 1 = Inr (Some oak)
   \<and> (0::int) \<le> 12 \<and> (12::int) < 2 ^ 63 \<and> 12 \<le> total_available nursery 1
   \<and> record_sale fmul_real (3, 0) nursery 1 12
     = (Inr (Some (sale_tx 1 12 (3, 0))),
        nursery\<lparr>stocks := [lot 1 1 0 1, lot 2 1 3 2], transactions := [sale_tx 1 12 (3, 0)]\<rparr>)"
proof -
  have h1: "stored nursery" by (simp add: operation_defs example_defs)
  have h2: "in_int64 (next_id (map tx_id (transactions nursery)))"
    by (simp add: operation_defs example_defs)
  have h3: "get_tree_type_by_id nursery 1 = Inr (Some oak)"
    by (simp add: operation_defs example_defs)
  have h4: "(0::int) \<le> 12" by simp
  have h5: "(12::int) < 2 ^ 63" by simp
  have h6: "12 \<le> total_available nursery 1" by (simp add: total_available_def example_defs)
  show ?thesis
    using record_sale_fifo[OF h1 h2 h3 h4 h5 h6, of fmul_real "(3, 0)"] h1 h2 h3 h6
    by (simp add: operation_defs example_defs)
qed

text \<open>
  The claim as first stated fails for a quantity that SQLite cannot hold: with two lots
  of \<open>2^62\<close> seedlings the stock suffices for a sale of \<open>2^63\<close>, and the insert of the
  transaction raises \<^verbatim>\<open>OverflowError\<close>; nothing is written.
\<close>

theorem record_sale_quantity_too_large:
  "stored big_lots \<and> get_tree_type_by_id big_lots 1 = Inr (Some oak)
   \<and> total_available big_lots 1 = 2 ^ 63
   \<and> record_sale fmul_real (3, 0) big_lots 1 (2 ^ 63) = (Inl OverflowError, big_lots)"
  by (simp add: operation_defs example_defs)

text \<open>
  Claim C2. When the requested quantity exceeds the total available quantity of the
  tree type, \<open>record_sale\<close> leaves the database as it was given: no lot changes and no
  transaction is added; and it returns \<^verbatim>\<open>None\<close>, for every tree-type id that SQLite can
  hold, as the id of every tree type in the table is.
\<close>

theorem record_sale_insufficient:
  "total_available db tid < q \<Longrightarrow>
   snd (record_sale fmul now db tid q) = db
   \<and> (in_int64 tid \<longrightarrow> fst (record_sale fmul now db tid q) = Inr None)"
  by (simp add: record_sale_def get_tree_type_by_id_def total_available_query
      split: option.splits)

theorem record_sale_insufficient_witness:
  "total_available nursery 1 < 16 \<and> in_int64 1
   \<and> record_sale fmul_real (3, 0) nursery 1 16 = (Inr None, nursery)"
proof -
  have h: "total_available nursery 1 < 16" by (simp add: total_available_def example_defs)
  have i: "in_int64 1" by (simp add: in_int64_def)
  show ?thesis
    using record_sale_insufficient[OF h, of fmul_real "(3, 0)"] h i
    by (cases "record_sale fmul_real (3, 0) nursery 1 16") simp
qed

text \<open>
  When no lot has a negative quantity, the available total is the total over all lots
  of the tree type.
\<close>

lemma total_available_all_lots:
  "\<forall>s\<in>set (stocks db). 0 \<le> quantity s \<Longrightarrow> total_available db tid = type_total db tid"
proof -
  have "sum_list (map quantity (filter (\<lambda>s. tree_type_id s = tid \<and> 0 < quantity s) tbl))
        = sum_list (map quantity (filter (\<lambda>s. tree_type_id s = tid) tbl))"
    if "\<forall>s\<in>set tbl. 0 \<le> quantity s" for tbl :: "'a stock list"
    using that by (induction tbl) auto
  then show "\<forall>s\<in>set (stocks db). 0 \<le> quantity s \<Longrightarrow> total_available db tid = type_total db tid"
    by (simp add: total_available_def type_total_def)
qed

text \<open>
  Claim C9, as amended. For a tree-type id that no tree type in the table has,
  \<open>record_sale\<close> leaves the database unchanged; it returns \<^verbatim>\<open>None\<close> as a value when the
  id is a 64-bit integer, and raises \<^verbatim>\<open>OverflowError\<close> in the lookup when it is not.
\<close>

theorem record_sale_unknown_type:
  "\<forall>t\<in>set (tree_types db). tt_id t \<noteq> tid \<Longrightarrow>
   record_sale fmul now db tid q = (if in_int64 tid then Inr None else Inl OverflowError, db)"
proof -
  assume "\<forall>t\<in>set (tree_types db). tt_id t \<noteq> tid"
  then have "find (\<lambda>t. tt_id t = tid) (tree_types db) = None" by (simp add: find_None_iff)
  then show ?thesis by (simp add: record_sale_def get_tree_type_by_id_def)
qed

theorem record_sale_unknown_type_witness:
  "list_all (\<lambda>t. tt_id t \<noteq> 9) (tree_types nursery) \<and> in_int64 9
   \<and> record_sale fmul_real (3, 0) nursery 9 1 = (Inr None, nursery)"
proof -
  have h: "\<forall>t\<in>set (tree_types nursery). tt_id t \<noteq> 9" by (simp add: example_defs)
  have i: "in_int64 9" by (simp add: in_int64_def)
  show ?thesis
    using record_sale_unknown_type[OF h, of fmul_real "(3, 0)" 1] h i
    by (simp add: list_all_iff)
qed

text \<open>
  The claim as first stated fails for an id that is not a 64-bit integer: no tree type
  has the id \<open>2^63\<close>, and the lookup raises \<^verbatim>\<open>OverflowError\<close> instead of returning \<^verbatim>\<open>None\<close>.
\<close>

theorem record_sale_type_id_too_large:
  "list_all (\<lambda>t. tt_id t \<noteq> 2 ^ 63) (tree_types nursery)
   \<and> record_sale fmul_real (3, 0) nursery (2 ^ 63) 1 = (Inl OverflowError, nursery)"
  by (simp add: operation_defs example_defs)

subsection \<open>Transfers\<close>

text \<open>
  Claim C3, as amended. Let the database be as SQLite holds it, let the source lot
  exist, the quantity to move be positive and at most the source lot's, the destination
  location id be a 64-bit integer, and let what is written fit: the raised quantity of
  the first lot of the source's tree type at the destination location, when there is
  one other than the source, or else the key of the new lot. Then \<open>move_stock_quantity\<close>
  returns the source and the destination lot as they are in the new table; the total of
  every tree type over all lots is unchanged; the destination lot has the source's tree
  type and the destination location, and is not the source lot when the destination
  location is not the source's. When no lot of that type is at the destination, the
  source has lost exactly the moved quantity and the destination is a new lot holding
  exactly the moved quantity. Otherwise take the first lot of that type at the
  destination, in table order: when it is not the source lot, the source has lost
  exactly the moved quantity and the destination lot is that first lot with exactly the
  moved quantity added; when it is the source lot itself, the database is unchanged.
\<close>

theorem move_stock_transfer:
  fixes db :: "'f db"
  assumes wf: "stored db"
    and src: "get_stock_by_id db sid = Inr (Some src)"
    and pos: "0 < q"
    and le: "q \<le> quantity src"
    and lid: "in_int64 lid"
    and fit: "case find (\<lambda>s. tree_type_id s = tree_type_id src \<and> location_id s = lid) (stocks db) of
                Some d \<Rightarrow> stock_id d = sid \<or> in_int64 (quantity d + q)
              | None \<Rightarrow> in_int64 (next_id (map stock_id (stocks db)))"
  shows "\<exists>src' dst' db'. move_stock_quantity now db sid lid q = (Inr (Some (src', dst')), db')
     \<and> (\<forall>t. type_total db' t = type_total db t)
     \<and> stored db'
     \<and> get_stock_by_id db' sid = Inr (Some src')
     \<and> get_stock_by_id db' (stock_id dst') = Inr (Some dst')
     \<and> tree_type_id dst' = tree_type_id src \<and> location_id dst' = lid
     \<and> (location_id src \<noteq> lid \<longrightarrow> stock_id dst' \<noteq> sid)
     \<and> ((\<forall>d\<in>set (stocks db). \<not> (tree_type_id d = tree_type_id src \<and> location_id d = lid)) \<longrightarrow>
           quantity src' = quantity src - q \<and> quantity dst' = q
           \<and> stock_id dst' \<notin> set (map stock_id (stocks db)))
     \<and> (\<forall>i<length (stocks db).
           (tree_type_id (stocks db ! i) = tree_type_id src \<and> location_id (stocks db ! i) = lid)
           \<and> (\<forall>j<i. \<not> (tree_type_id (stocks db ! j) = tree_type_id src
                        \<and> location_id (stocks db ! j) = lid)) \<longrightarrow>
           (if stock_id (stocks db ! i) = sid then db' = db \<and> src' = src \<and> dst' = src
            else quantity src' = quantity src - q
               \<and> dst' = (stocks db ! i)\<lparr>quantity := quantity (stocks db ! i) + q\<rparr>))"
proof -
  have ids: "distinct (map stock_id (stocks db))" and all: "list_all storable_stock (stocks db)"
    using wf by (simp_all add: stored_def)
  have s: "src \<in> set (stocks db)" "stock_id src = sid" "in_int64 sid"
    using get_stock_by_id_SomeD[OF src] by simp_all
  have qs: "in_int64 (quantity src)"
    using stored_storable[OF wf s(1)] by (simp add: storable_stock_def)
  have fit_s: "in_int64 (quantity src - q)"
    using pos le by (intro in_int64_between[OF qs]) simp_all
  have fit_q: "in_int64 q"
    using pos le by (intro in_int64_between[OF qs]) simp_all
  let ?P = "\<lambda>s. tree_type_id s = tree_type_id src \<and> location_id s = lid"
  show ?thesis
  proof (cases "find ?P (stocks db)")
    case None
    then have none: "\<forall>d\<in>set (stocks db). \<not> ?P d" by (simp add: find_None_iff)
    then have nofirst: "\<not> ?P (stocks db ! i)" if "i < length (stocks db)" for i
      using that by simp
    have key: "in_int64 (next_id (map stock_id (stocks db)))" using fit None by simp
    define new :: "'f stock" where
      "new = \<lparr>stock_id = next_id (map stock_id (stocks db)), tree_type_id = tree_type_id src,
              location_id = lid, quantity = q, date_added = now,
              cost_per_seedling = cost_per_seedling src\<rparr>"
    define src' where "src' = src\<lparr>quantity := quantity src - q\<rparr>"
    define db' where "db' = db\<lparr>stocks := add_quantity sid (- q) (stocks db) @ [new]\<rparr>"
    have run: "move_stock_quantity now db sid lid q = (Inr (Some (src', new)), db')"
      unfolding src'_def new_def db'_def
      by (rule move_new[OF wf src le None lid fit_s fit_q key])
    have fresh: "stock_id new \<notin> set (map stock_id (stocks db))"
      unfolding new_def using next_id_fresh[of "map stock_id (stocks db)"] by simp
    then have neq: "stock_id new \<noteq> sid" using s by auto
    have ids': "distinct (map stock_id (stocks db'))" using ids fresh by (simp add: db'_def)
    have "\<forall>x\<in>set (stocks db). stock_id x = sid \<longrightarrow> in_int64 (quantity x + - q)"
      using distinct_ids_eq[OF ids _ s(1)] s(2) fit_s by auto
    then have "list_all storable_stock (add_quantity sid (- q) (stocks db))"
      by (rule add_quantity_storable[OF all])
    moreover have "storable_stock new"
      using key lid fit_q stored_storable[OF wf s(1)] by (simp add: storable_stock_def new_def)
    ultimately have wf': "stored db'" using ids' by (simp add: stored_def db'_def)
    have "src' \<in> set (stocks db')"
      using add_quantity_in[OF s(1), of sid "- q"] s(2) by (simp add: db'_def src'_def)
    then have g1: "get_stock_by_id db' sid = Inr (Some src')"
      using get_stock_by_id_in[OF ids', of src'] s(2,3) by (simp add: src'_def)
    have "new \<in> set (stocks db')" by (simp add: db'_def)
    then have g2: "get_stock_by_id db' (stock_id new) = Inr (Some new)"
      using key by (intro get_stock_by_id_in[OF ids']) (simp_all add: new_def)
    have tot: "type_total db' t = type_total db t" for t
      unfolding type_total_def db'_def
      using move_new_total[OF ids s(1), where new = new and q = q and t = t] s(2)
      by (simp add: new_def)
    have "(\<forall>t. type_total db' t = type_total db t)
       \<and> stored db'
       \<and> get_stock_by_id db' sid = Inr (Some src')
       \<and> get_stock_by_id db' (stock_id new) = Inr (Some new)
       \<and> tree_type_id new = tree_type_id src \<and> location_id new = lid
       \<and> (location_id src \<noteq> lid \<longrightarrow> stock_id new \<noteq> sid)
       \<and> ((\<forall>d\<in>set (stocks db). \<not> ?P d) \<longrightarrow>
             quantity src' = quantity src - q \<and> quantity new = q
             \<and> stock_id new \<notin> set (map stock_id (stocks db)))
       \<and> (\<forall>i<length (stocks db).
             ?P (stocks db ! i) \<and> (\<forall>j<i. \<not> ?P (stocks db ! j)) \<longrightarrow>
             (if stock_id (stocks db ! i) = sid then db' = db \<and> src' = src \<and> new = src
              else quantity src' = quantity src - q
                 \<and> new = (stocks db ! i)\<lparr>quantity := quantity (stocks db ! i) + q\<rparr>))"
      using tot wf' g1 g2 neq fresh nofirst by (auto simp: new_def src'_def)
    with run show ?thesis by blast
  next
    case (Some d)
    have d: "d \<in> set (stocks db)" "tree_type_id d = tree_type_id src" "location_id d = lid"
      using Some by (auto simp: find_Some_iff)
    then have some: "\<not> (\<forall>d\<in>set (stocks db). \<not> ?P d)" by blast
    have first: "stocks db ! i = d"
      if "i < length (stocks db)" "?P (stocks db ! i)" "\<forall>j<i. \<not> ?P (stocks db ! j)" for i
      using find_first[of i "stocks db" ?P] that Some by simp
    show ?thesis
    proof (cases "stock_id d = sid")
      case True
      have eq: "d = src"
        and run: "move_stock_quantity now db sid lid q = (Inr (Some (src, src)), db)"
        using move_alias[OF wf src le Some True] by simp_all
      have g: "get_stock_by_id db (stock_id src) = Inr (Some src)"
        using src s(2) by simp
      have "(\<forall>t. type_total db t = type_total db t)
       \<and> stored db
       \<and> get_stock_by_id db sid = Inr (Some src)
       \<and> get_stock_by_id db (stock_id src) = Inr (Some src)
       \<and> tree_type_id src = tree_type_id src \<and> location_id src = lid
       \<and> (location_id src \<noteq> lid \<longrightarrow> stock_id src \<noteq> sid)
       \<and> ((\<forall>d\<in>set (stocks db). \<not> ?P d) \<longrightarrow>
             quantity src = quantity src - q \<and> quantity src = q
             \<and> stock_id src \<notin> set (map stock_id (stocks db)))
       \<and> (\<forall>i<length (stocks db).
             ?P (stocks db ! i) \<and> (\<forall>j<i. \<not> ?P (stocks db ! j)) \<longrightarrow>
             (if stock_id (stocks db ! i) = sid then db = db \<and> src = src \<and> src = src
              else quantity src = quantity src - q
                 \<and> src = (stocks db ! i)\<lparr>quantity := quantity (stocks db ! i) + q\<rparr>))"
        using wf src g d(3) eq some first True by auto
      with run show ?thesis by blast
    next
      case False
      have fit_d: "in_int64 (quantity d + q)" using fit Some False by simp
      define src' where "src' = src\<lparr>quantity := quantity src - q\<rparr>"
      define dst' where "dst' = d\<lparr>quantity := quantity d + q\<rparr>"
      define db' where
        "db' = db\<lparr>stocks := add_quantity sid (- q) (add_quantity (stock_id d) q (stocks db))\<rparr>"
      have run: "move_stock_quantity now db sid lid q = (Inr (Some (src', dst')), db')"
        unfolding src'_def dst'_def db'_def
        by (rule move_existing[OF wf src le Some False lid fit_s fit_d])
      have ids': "distinct (map stock_id (stocks db'))" using ids by (simp add: db'_def)
      let ?t1 = "add_quantity (stock_id d) q (stocks db)"
      have "\<forall>x\<in>set (stocks db). stock_id x = stock_id d \<longrightarrow> in_int64 (quantity x + q)"
        using distinct_ids_eq[OF ids _ d(1)] fit_d by blast
      then have all1: "list_all storable_stock ?t1" by (rule add_quantity_storable[OF all])
      have s1: "src \<in> set ?t1"
        using add_quantity_in[OF s(1), of "stock_id d" q] False s(2) by simp
      have ids1: "distinct (map stock_id ?t1)" using ids by simp
      have "\<forall>x\<in>set ?t1. stock_id x = sid \<longrightarrow> in_int64 (quantity x + - q)"
        using distinct_ids_eq[OF ids1 _ s1] s(2) fit_s by auto
      then have "list_all storable_stock (add_quantity sid (- q) ?t1)"
        by (rule add_quantity_storable[OF all1])
      then have wf': "stored db'" using ids' by (simp add: stored_def db'_def)
      have "src' \<in> set (stocks db')"
        using add_quantity_in[OF s1, of sid "- q"] s(2) by (simp add: db'_def src'_def)
      then have g1: "get_stock_by_id db' sid = Inr (Some src')"
        using get_stock_by_id_in[OF ids', of src'] s(2,3) by (simp add: src'_def)
      have "dst' \<in> set ?t1"
        using add_quantity_in[OF d(1), of "stock_id d" q] by (simp add: dst'_def)
      then have in': "dst' \<in> set (stocks db')"
        using add_quantity_in[of dst' _ sid "- q"] False by (simp add: db'_def dst'_def)
      have "in_int64 (stock_id dst')"
        using stored_storable[OF wf d(1)] by (simp add: storable_stock_def dst'_def)
      then have g2: "get_stock_by_id db' (stock_id dst') = Inr (Some dst')"
        using in' by (intro get_stock_by_id_in[OF ids'])
      have tot: "type_total db' t = type_total db t" for t
        unfolding type_total_def db'_def
        using move_existing_total[OF ids s(1) d(1), where q = q and t = t] False s(2) d(2)
        by simp
      have "(\<forall>t. type_total db' t = type_total db t)
       \<and> stored db'
       \<and> get_stock_by_id db' sid = Inr (Some src')
       \<and> get_stock_by_id db' (stock_id dst') = Inr (Some dst')
       \<and> tree_type_id dst' = tree_type_id src \<and> location_id dst' = lid
       \<and> (location_id src \<noteq> lid \<longrightarrow> stock_id dst' \<noteq> sid)
       \<and> ((\<forall>d\<in>set (stocks db). \<not> ?P d) \<longrightarrow>
             quantity src' = quantity src - q \<and> quantity dst' = q
             \<and> stock_id dst' \<notin> set (map stock_id (stocks db)))
       \<and> (\<forall>i<length (stocks db).
             ?P (stocks db ! i) \<and> (\<forall>j<i. \<not> ?P (stocks db ! j)) \<longrightarrow>
             (if stock_id (stocks db ! i) = sid then db' = db \<and> src' = src \<and> dst' = src
              else quantity src' = quantity src - q
                 \<and> dst' = (stocks db ! i)\<lparr>quantity := quantity (stocks db ! i) + q\<rparr>))"
        using tot wf' g1 g2 False d some first by (auto simp: dst'_def src'_def)
      with run show ?thesis by blast
    qed
  qed
qed

theorem move_stock_transfer_witness:
  "stored nursery \<and> get_stock_by_id nursery 2 = Inr (Some (lot 2 1 5 2))
   \<and> (0::int) < 4 \<and> 4 \<le> quantity (lot 2 1 5 2) \<and> in_int64 1
   \<and> find (\<lambda>s. tree_type_id s = tree_type_id (lot 2 1 5 2) \<and> location_id s = 1) (stocks nursery)
     = Some (lot 1 1 10 1)
   \<and> in_int64 (quantity (lot 1 1 10 1) + 4)
   \<and> move_stock_quantity (3, 0) nursery 2 1 4
     = (Inr (Some (lot 2 1 1 2, lot 1 1 14 1)),
        nursery\<lparr>stocks := [lot 1 1 14 1, lot 2 1 1 2]\<rparr>)
   \<and> type_total (nursery\<lparr>stocks := [lot 1 1 14 1, lot 2 1 1 2]\<rparr>) 1 = type_total nursery 1"
proof -
  have h1: "stored nursery" by (simp add: operation_defs example_defs)
  have h2: "get_stock_by_id nursery 2 = Inr (Some (lot 2 1 5 2))"
    by (simp add: operation_defs example_defs)
  have h3: "(0::int) < 4" by simp
  have h4: "4 \<le> quantity (lot 2 1 5 2)" by (simp add: example_defs)
  have h5: "in_int64 1" by (simp add: in_int64_def)
  have f: "find (\<lambda>s. tree_type_id s = tree_type_id (lot 2 1 5 2) \<and> location_id s = 1)
             (stocks nursery) = Some (lot 1 1 10 1)"
    by (simp add: example_defs)
  have g: "in_int64 (quantity (lot 1 1 10 1) + 4)" by (simp add: in_int64_def example_defs)
  have h6: "case find (\<lambda>s. tree_type_id s = tree_type_id (lot 2 1 5 2) \<and> location_id s = 1)
                   (stocks nursery) of
              Some d \<Rightarrow> stock_id d = 2 \<or> in_int64 (quantity d + 4)
            | None \<Rightarrow> in_int64 (next_id (map stock_id (stocks nursery)))"
    using g by (simp only: f option.case) simp
  show ?thesis
    using move_stock_transfer[OF h1 h2 h3 h4 h5 h6, of "(3, 0)"] h1 h2 h4 h5 f g
    by (simp add: operation_defs example_defs)
qed

text \<open>
  The claim as first stated fails for a transfer within one location: lot 1 holds 10 at
  location 1, moving 4 of it to location 1 succeeds, and lot 1 still holds 10, not 6.
\<close>

theorem move_stock_same_lot:
  "get_stock_by_id nursery 1 = Inr (Some (lot 1 1 10 1)) \<and> (0::int) < 4
   \<and> 4 \<le> quantity (lot 1 1 10 1)
   \<and> move_stock_quantity (3, 0) nursery 1 1 4
     = (Inr (Some (lot 1 1 10 1, lot 1 1 10 1)), nursery)
   \<and> quantity (lot 1 1 10 1) \<noteq> quantity (lot 1 1 10 1) - 4"
  by (simp add: operation_defs example_defs)

text \<open>
  Claim C4, as amended. When no lot has the source id, or the lot that has it holds less
  than the quantity to move, \<open>move_stock_quantity\<close> leaves the database unchanged; it
  returns \<^verbatim>\<open>None\<close> when the source id is a 64-bit integer, and raises \<^verbatim>\<open>OverflowError\<close> in
  the lookup when it is not.
\<close>

theorem move_stock_noop:
  fixes db :: "'f db"
  assumes "\<forall>s\<in>set (stocks db). stock_id s = sid \<longrightarrow> quantity s < q"
  shows "move_stock_quantity now db sid lid q
         = (if in_int64 sid then Inr None else Inl OverflowError, db)"
proof (cases "find (\<lambda>s. stock_id s = sid) (stocks db)")
  case None
  then show ?thesis by (simp add: move_stock_quantity_def get_stock_by_id_def)
next
  case (Some s)
  then have "s \<in> set (stocks db)" "stock_id s = sid" by (auto simp: find_Some_iff)
  then have "quantity s < q" using assms by simp
  then show ?thesis using Some by (simp add: move_stock_quantity_def get_stock_by_id_def)
qed

theorem move_stock_noop_witness:
  "list_all (\<lambda>s. stock_id s \<noteq> 7) (stocks nursery) \<and> in_int64 7
   \<and> move_stock_quantity (3, 0) nursery 7 2 1 = (Inr None, nursery)
   \<and> list_all (\<lambda>s. stock_id s \<noteq> 1 \<or> quantity s < 11) (stocks nursery) \<and> in_int64 1
   \<and> move_stock_quantity (3, 0) nursery 1 2 11 = (Inr None, nursery)"
proof -
  have h1: "\<forall>s\<in>set (stocks nursery). stock_id s = 7 \<longrightarrow> quantity s < 1"
    by (simp add: example_defs)
  have h2: "\<forall>s\<in>set (stocks nursery). stock_id s = 1 \<longrightarrow> quantity s < 11"
    by (simp add: example_defs)
  have i: "in_int64 7" "in_int64 1" by (simp_all add: in_int64_def)
  have l: "list_all (\<lambda>s. stock_id s \<noteq> 7) (stocks nursery)"
    "list_all (\<lambda>s. stock_id s \<noteq> 1 \<or> quantity s < 11) (stocks nursery)"
    by (simp_all add: example_defs)
  show ?thesis
    using move_stock_noop[OF h1, of "(3, 0)" 2] move_stock_noop[OF h2, of "(3, 0)" 2] i l
    by simp
qed

text \<open>
  The claim as first stated fails for a source id that is not a 64-bit integer: no lot
  has the id \<open>2^63\<close>, and the lookup raises \<^verbatim>\<open>OverflowError\<close> instead of returning \<^verbatim>\<open>None\<close>.
\<close>

theorem move_stock_source_id_too_large:
  "list_all (\<lambda>s. stock_id s \<noteq> 2 ^ 63) (stocks nursery)
   \<and> move_stock_quantity (3, 0) nursery (2 ^ 63) 2 1 = (Inl OverflowError, nursery)"
  by (simp add: operation_defs example_defs)

text \<open>
  Claim C5, as amended. Under the conditions of C3 (a stored database, an existing
  source lot, a positive quantity that the source holds, a destination location id of 64
  bits, and what is written fits): if some lot of the source's tree type is at the
  destination location, no row is added, and the destination lot is the first such lot,
  in table order and in its place, with its quantity raised by the moved quantity,
  unless that lot is the source lot itself, whose quantity then stays what it was. If
  there is no such lot, exactly one row is added at the end of the table, with a fresh
  id, the source's tree type, the destination location, the moved quantity and the
  source lot's \<open>cost_per_seedling\<close>.
\<close>

theorem move_stock_merge_or_create:
  fixes db :: "'f db"
  assumes wf: "stored db"
    and src: "get_stock_by_id db sid = Inr (Some src)"
    and pos: "0 < q"
    and le: "q \<le> quantity src"
    and lid: "in_int64 lid"
    and fit: "case find (\<lambda>s. tree_type_id s = tree_type_id src \<and> location_id s = lid) (stocks db) of
                Some d \<Rightarrow> stock_id d = sid \<or> in_int64 (quantity d + q)
              | None \<Rightarrow> in_int64 (next_id (map stock_id (stocks db)))"
  shows "\<exists>src' dst' db'. move_stock_quantity now db sid lid q = (Inr (Some (src', dst')), db')
    \<and> dst' \<in> set (stocks db')
    \<and> (\<forall>i<length (stocks db).
          (tree_type_id (stocks db ! i) = tree_type_id src \<and> location_id (stocks db ! i) = lid)
          \<and> (\<forall>j<i. \<not> (tree_type_id (stocks db ! j) = tree_type_id src
                       \<and> location_id (stocks db ! j) = lid)) \<longrightarrow>
          map stock_id (stocks db') = map stock_id (stocks db)
          \<and> stocks db' ! i = dst'
          \<and> dst' = (stocks db ! i)
               \<lparr>quantity := (if stock_id (stocks db ! i) = sid then quantity (stocks db ! i)
                              else quantity (stocks db ! i) + q)\<rparr>)
    \<and> ((\<forall>d\<in>set (stocks db). \<not> (tree_type_id d = tree_type_id src \<and> location_id d = lid)) \<longrightarrow>
          map stock_id (stocks db') = map stock_id (stocks db) @ [stock_id dst']
          \<and> stock_id dst' \<notin> set (map stock_id (stocks db))
          \<and> last (stocks db') = dst'
          \<and> tree_type_id dst' = tree_type_id src \<and> location_id dst' = lid
          \<and> quantity dst' = q
          \<and> cost_per_seedling dst' = cost_per_seedling src)"
proof -
  have ids: "distinct (map stock_id (stocks db))" using wf by (simp add: stored_def)
  have s: "src \<in> set (stocks db)" "stock_id src = sid"
    using get_stock_by_id_SomeD[OF src] by simp_all
  have qs: "in_int64 (quantity src)"
    using stored_storable[OF wf s(1)] by (simp add: storable_stock_def)
  have fit_s: "in_int64 (quantity src - q)"
    using pos le by (intro in_int64_between[OF qs]) simp_all
  have fit_q: "in_int64 q"
    using pos le by (intro in_int64_between[OF qs]) simp_all
  let ?P = "\<lambda>s. tree_type_id s = tree_type_id src \<and> location_id s = lid"
  show ?thesis
  proof (cases "find ?P (stocks db)")
    case None
    then have none: "\<forall>d\<in>set (stocks db). \<not> ?P d" by (simp add: find_None_iff)
    then have nofirst: "\<not> ?P (stocks db ! i)" if "i < length (stocks db)" for i
      using that by simp
    have key: "in_int64 (next_id (map stock_id (stocks db)))" using fit None by simp
    define new :: "'f stock" where
      "new = \<lparr>stock_id = next_id (map stock_id (stocks db)), tree_type_id = tree_type_id src,
              location_id = lid, quantity = q, date_added = now,
              cost_per_seedling = cost_per_seedling src\<rparr>"
    define src' where "src' = src\<lparr>quantity := quantity src - q\<rparr>"
    define db' where "db' = db\<lparr>stocks := add_quantity sid (- q) (stocks db) @ [new]\<rparr>"
    have run: "move_stock_quantity now db sid lid q = (Inr (Some (src', new)), db')"
      unfolding src'_def new_def db'_def
      by (rule move_new[OF wf src le None lid fit_s fit_q key])
    have fresh: "stock_id new \<notin> set (map stock_id (stocks db))"
      unfolding new_def using next_id_fresh[of "map stock_id (stocks db)"] by simp
    have "new \<in> set (stocks db')
      \<and> (\<forall>i<length (stocks db). ?P (stocks db ! i) \<and> (\<forall>j<i. \<not> ?P (stocks db ! j)) \<longrightarrow>
          map stock_id (stocks db') = map stock_id (stocks db)
          \<and> stocks db' ! i = new
          \<and> new = (stocks db ! i)
               \<lparr>quantity := (if stock_id (stocks db ! i) = sid then quantity (stocks db ! i)
                              else quantity (stocks db ! i) + q)\<rparr>)
      \<and> ((\<forall>d\<in>set (stocks db). \<not> ?P d) \<longrightarrow>
          map stock_id (stocks db') = map stock_id (stocks db) @ [stock_id new]
          \<and> stock_id new \<notin> set (map stock_id (stocks db))
          \<and> last (stocks db') = new
          \<and> tree_type_id new = tree_type_id src \<and> location_id new = lid
          \<and> quantity new = q
          \<and> cost_per_seedling new = cost_per_seedling src)"
      using nofirst fresh by (auto simp: db'_def) (simp_all add: new_def)
    with run show ?thesis by blast
  next
    case (Some d)
    have d: "d \<in> set (stocks db)" "?P d" using Some by (auto simp: find_Some_iff)
    then have some: "\<not> (\<forall>d\<in>set (stocks db). \<not> ?P d)" by blast
    have first: "stocks db ! i = d"
      if "i < length (stocks db)" "?P (stocks db ! i)" "\<forall>j<i. \<not> ?P (stocks db ! j)" for i
      using find_first[of i "stocks db" ?P] that Some by simp
    show ?thesis
    proof (cases "stock_id d = sid")
      case True
      have eq: "d = src"
        and run: "move_stock_quantity now db sid lid q = (Inr (Some (src, src)), db)"
        using move_alias[OF wf src le Some True] by simp_all
      have "src \<in> set (stocks db)
        \<and> (\<forall>i<length (stocks db). ?P (stocks db ! i) \<and> (\<forall>j<i. \<not> ?P (stocks db ! j)) \<longrightarrow>
            map stock_id (stocks db) = map stock_id (stocks db)
            \<and> stocks db ! i = src
            \<and> src = (stocks db ! i)
                 \<lparr>quantity := (if stock_id (stocks db ! i) = sid then quantity (stocks db ! i)
                                else quantity (stocks db ! i) + q)\<rparr>)
        \<and> ((\<forall>d\<in>set (stocks db). \<not> ?P d) \<longrightarrow>
            map stock_id (stocks db) = map stock_id (stocks db) @ [stock_id src]
            \<and> stock_id src \<notin> set (map stock_id (stocks db))
            \<and> last (stocks db) = src
            \<and> tree_type_id src = tree_type_id src \<and> location_id src = lid
            \<and> quantity src = q
            \<and> cost_per_seedling src = cost_per_seedling src)"
        using some first eq s by auto
      with run show ?thesis by blast
    next
      case False
      have fit_d: "in_int64 (quantity d + q)" using fit Some False by simp
      define src' where "src' = src\<lparr>quantity := quantity src - q\<rparr>"
      define dst' where "dst' = d\<lparr>quantity := quantity d + q\<rparr>"
      define db' where
        "db' = db\<lparr>stocks := add_quantity sid (- q) (add_quantity (stock_id d) q (stocks db))\<rparr>"
      have run: "move_stock_quantity now db sid lid q = (Inr (Some (src', dst')), db')"
        unfolding src'_def dst'_def db'_def
        by (rule move_existing[OF wf src le Some False lid fit_s fit_d])
      have at: "stocks db' ! i = dst'" if "i < length (stocks db)" "stocks db ! i = d" for i
        using that False by (simp add: db'_def dst'_def add_quantity_nth)
      have len: "length (stocks db') = length (stocks db)" by (simp add: db'_def)
      obtain i0 where i0: "i0 < length (stocks db)" "stocks db ! i0 = d"
        using d(1) by (auto simp: in_set_conv_nth)
      have in': "dst' \<in> set (stocks db')"
        using at[OF i0] i0(1) len nth_mem[of i0 "stocks db'"] by simp
      have same: "map stock_id (stocks db') = map stock_id (stocks db)" by (simp add: db'_def)
      have merged: "map stock_id (stocks db') = map stock_id (stocks db)
            \<and> stocks db' ! i = dst'
            \<and> dst' = (stocks db ! i)
                 \<lparr>quantity := (if stock_id (stocks db ! i) = sid then quantity (stocks db ! i)
                                else quantity (stocks db ! i) + q)\<rparr>"
        if "i < length (stocks db)" "?P (stocks db ! i)" "\<forall>j<i. \<not> ?P (stocks db ! j)" for i
      proof -
        have e: "stocks db ! i = d" using first[OF that] .
        show ?thesis using same at[OF that(1) e] False by (simp add: e dst'_def)
      qed
      have "dst' \<in> set (stocks db')
        \<and> (\<forall>i<length (stocks db). ?P (stocks db ! i) \<and> (\<forall>j<i. \<not> ?P (stocks db ! j)) \<longrightarrow>
            map stock_id (stocks db') = map stock_id (stocks db)
            \<and> stocks db' ! i = dst'
            \<and> dst' = (stocks db ! i)
                 \<lparr>quantity := (if stock_id (stocks db ! i) = sid then quantity (stocks db ! i)
                                else quantity (stocks db ! i) + q)\<rparr>)
        \<and> ((\<forall>d\<in>set (stocks db). \<not> ?P d) \<longrightarrow>
            map stock_id (stocks db') = map stock_id (stocks db) @ [stock_id dst']
            \<and> stock_id dst' \<notin> set (map stock_id (stocks db))
            \<and> last (stocks db') = dst'
            \<and> tree_type_id dst' = tree_type_id src \<and> location_id dst' = lid
            \<and> quantity dst' = q
            \<and> cost_per_seedling dst' = cost_per_seedling src)"
        using some in' merged by blast
      with run show ?thesis by blast
    qed
  qed
qed

text \<open>
  A transfer from lot 1 creates lot 3 at the empty location 2 of \<open>nursery\<close>, and merges into
  lot 2 at location 2 of \<open>two_beds\<close>: 10 and 3 become 6 and 7.
\<close>

theorem move_stock_merge_or_create_witness:
  "stored nursery \<and> get_stock_by_id nursery 1 = Inr (Some (lot 1 1 10 1))
   \<and> (0::int) < 4 \<and> 4 \<le> quantity (lot 1 1 10 1) \<and> in_int64 2
   \<and> find (\<lambda>s. tree_type_id s = tree_type_id (lot 1 1 10 1) \<and> location_id s = 2) (stocks nursery)
     = None
   \<and> in_int64 (next_id (map stock_id (stocks nursery)))
   \<and> move_stock_quantity (3, 0) nursery 1 2 4
     = (Inr (Some (lot 1 1 6 1, lot 3 2 4 3)),
        nursery\<lparr>stocks := [lot 1 1 6 1, lot 2 1 5 2, lot 3 2 4 3]\<rparr>)
   \<and> cost_per_seedling (lot 3 2 4 3) = cost_per_seedling (lot 1 1 10 1)
   \<and> stored two_beds \<and> get_stock_by_id two_beds 1 = Inr (Some (lot 1 1 10 1))
   \<and> find (\<lambda>s. tree_type_id s = tree_type_id (lot 1 1 10 1) \<and> location_id s = 2) (stocks two_beds)
     = Some (lot 2 2 3 2)
   \<and> in_int64 (quantity (lot 2 2 3 2) + 4)
   \<and> move_stock_quantity (3, 0) two_beds 1 2 4
     = (Inr (Some (lot 1 1 6 1, lot 2 2 7 2)), two_beds\<lparr>stocks := [lot 1 1 6 1, lot 2 2 7 2]\<rparr>)"
proof -
  have h1: "stored nursery" by (simp add: operation_defs example_defs)
  have h2: "get_stock_by_id nursery 1 = Inr (Some (lot 1 1 10 1))"
    by (simp add: operation_defs example_defs)
  have h3: "(0::int) < 4" by simp
  have h4: "4 \<le> quantity (lot 1 1 10 1)" by (simp add: example_defs)
  have h5: "in_int64 2" by (simp add: in_int64_def)
  have f1: "find (\<lambda>s. tree_type_id s = tree_type_id (lot 1 1 10 1) \<and> location_id s = 2)
              (stocks nursery) = None"
    by (simp add: example_defs)
  have g1: "in_int64 (next_id (map stock_id (stocks nursery)))"
    by (simp add: operation_defs example_defs)
  have h6: "case find (\<lambda>s. tree_type_id s = tree_type_id (lot 1 1 10 1) \<and> location_id s = 2)
                   (stocks nursery) of
              Some d \<Rightarrow> stock_id d = 1 \<or> in_int64 (quantity d + 4)
            | None \<Rightarrow> in_int64 (next_id (map stock_id (stocks nursery)))"
    using g1 by (simp only: f1 option.case)
  have k1: "stored two_beds" by (simp add: operation_defs example_defs)
  have k2: "get_stock_by_id two_beds 1 = Inr (Some (lot 1 1 10 1))"
    by (simp add: operation_defs example_defs)
  have f2: "find (\<lambda>s. tree_type_id s = tree_type_id (lot 1 1 10 1) \<and> location_id s = 2)
              (stocks two_beds) = Some (lot 2 2 3 2)"
    by (simp add: example_defs)
  have g2: "in_int64 (quantity (lot 2 2 3 2) + 4)" by (simp add: in_int64_def example_defs)
  have k6: "case find (\<lambda>s. tree_type_id s = tree_type_id (lot 1 1 10 1) \<and> location_id s = 2)
                   (stocks two_beds) of
              Some d \<Rightarrow> stock_id d = 1 \<or> in_int64 (quantity d + 4)
            | None \<Rightarrow> in_int64 (next_id (map stock_id (stocks two_beds)))"
    using g2 by (simp only: f2 option.case) simp
  show ?thesis
    using move_stock_merge_or_create[OF h1 h2 h3 h4 h5 h6, of "(3, 0)"]
      move_stock_merge_or_create[OF k1 k2 h3 h4 h5 k6, of "(3, 0)"] h1 h2 h4 h5 f1 g1 k1 k2 f2 g2
    by (simp add: operation_defs example_defs)
qed

text \<open>
  The claim as first stated fails when the lot found at the destination is the source:
  lot 2 holds 3 at location 2, moving 2 of it to location 2 succeeds, and the existing
  lot still holds 3, not 5.
\<close>

theorem move_stock_existing_is_source:
  "get_stock_by_id two_beds 2 = Inr (Some (lot 2 2 3 2)) \<and> (0::int) < 2
   \<and> 2 \<le> quantity (lot 2 2 3 2)
   \<and> find (\<lambda>s. tree_type_id s = 1 \<and> location_id s = 2) (stocks two_beds) = Some (lot 2 2 3 2)
   \<and> move_stock_quantity (3, 0) two_beds 2 2 2
     = (Inr (Some (lot 2 2 3 2, lot 2 2 3 2)), two_beds)
   \<and> quantity (lot 2 2 3 2) \<noteq> quantity (lot 2 2 3 2) + 2"
  by (simp add: operation_defs example_defs)

subsection \<open>Additions\<close>

text \<open>
  Claim C6, as amended. When the tree-type id, the location id, the quantity and the
  next key are 64-bit integers, \<open>add_stock_entry\<close> appends exactly one row, with a fresh
  id and the given tree type, location, quantity and cost; the rows that were there are
  unchanged, as are the other tables; and the total of that tree type at that location
  grows by exactly the given quantity. When the tree-type id, the location id or the
  quantity is not a 64-bit integer, it raises \<^verbatim>\<open>OverflowError\<close> and the database is
  unchanged.
\<close>

theorem add_stock_entry_new_lot:
  "(in_int64 t \<and> in_int64 l \<and> in_int64 q \<and> in_int64 (next_id (map stock_id (stocks db))) \<longrightarrow>
     (\<exists>s db'. add_stock_entry now db t l q c = (Inr s, db')
        \<and> stocks db' = stocks db @ [s]
        \<and> stock_id s \<notin> set (map stock_id (stocks db))
        \<and> tree_type_id s = t \<and> location_id s = l \<and> quantity s = q
        \<and> date_added s = now \<and> cost_per_seedling s = c
        \<and> location_total db' t l = location_total db t l + q
        \<and> tree_types db' = tree_types db \<and> locations db' = locations db
        \<and> transactions db' = transactions db))
   \<and> (\<not> (in_int64 t \<and> in_int64 l \<and> in_int64 q) \<longrightarrow>
        add_stock_entry now db t l q c = (Inl OverflowError, db))"
proof -
  define s :: "'a stock" where
    "s = \<lparr>stock_id = next_id (map stock_id (stocks db)), tree_type_id = t, location_id = l,
          quantity = q, date_added = now, cost_per_seedling = c\<rparr>"
  have fresh: "stock_id s \<notin> set (map stock_id (stocks db))"
    using next_id_fresh[of "map stock_id (stocks db)"] by (simp add: s_def)
  then have "s \<notin> set (stocks db)" by auto
  then have w: "writable (stocks db) (stocks db @ [s]) \<longleftrightarrow> storable_stock s"
    by (simp add: writable_def list_all_iff)
  have st: "storable_stock s \<longleftrightarrow>
            in_int64 t \<and> in_int64 l \<and> in_int64 q \<and> in_int64 (next_id (map stock_id (stocks db)))"
    by (auto simp: storable_stock_def s_def)
  have run: "add_stock_entry now db t l q c =
             (if storable_stock s then (Inr s, db\<lparr>stocks := stocks db @ [s]\<rparr>)
              else (Inl OverflowError, db))"
    using w by (simp add: add_stock_entry_def Let_def s_def[symmetric])
  show ?thesis
  proof (intro conjI impI)
    assume "in_int64 t \<and> in_int64 l \<and> in_int64 q
            \<and> in_int64 (next_id (map stock_id (stocks db)))"
    then have "add_stock_entry now db t l q c = (Inr s, db\<lparr>stocks := stocks db @ [s]\<rparr>)"
      using run st by simp
    moreover have "stocks (db\<lparr>stocks := stocks db @ [s]\<rparr>) = stocks db @ [s]
        \<and> stock_id s \<notin> set (map stock_id (stocks db))
        \<and> tree_type_id s = t \<and> location_id s = l \<and> quantity s = q
        \<and> date_added s = now \<and> cost_per_seedling s = c
        \<and> location_total (db\<lparr>stocks := stocks db @ [s]\<rparr>) t l = location_total db t l + q
        \<and> tree_types (db\<lparr>stocks := stocks db @ [s]\<rparr>) = tree_types db
        \<and> locations (db\<lparr>stocks := stocks db @ [s]\<rparr>) = locations db
        \<and> transactions (db\<lparr>stocks := stocks db @ [s]\<rparr>) = transactions db"
      using fresh by (simp add: location_total_def) (simp add: s_def)
    ultimately show "\<exists>s db'. add_stock_entry now db t l q c = (Inr s, db')
        \<and> stocks db' = stocks db @ [s]
        \<and> stock_id s \<notin> set (map stock_id (stocks db))
        \<and> tree_type_id s = t \<and> location_id s = l \<and> quantity s = q
        \<and> date_added s = now \<and> cost_per_seedling s = c
        \<and> location_total db' t l = location_total db t l + q
        \<and> tree_types db' = tree_types db \<and> locations db' = locations db
        \<and> transactions db' = transactions db"
      by blast
  next
    assume "\<not> (in_int64 t \<and> in_int64 l \<and> in_int64 q)"
    then have "\<not> storable_stock s" using st by blast
    then show "add_stock_entry now db t l q c = (Inl OverflowError, db)"
      using run by simp
  qed
qed

theorem add_stock_entry_new_lot_witness:
  "in_int64 1 \<and> in_int64 2 \<and> in_int64 7 \<and> in_int64 (next_id (map stock_id (stocks nursery)))
   \<and> add_stock_entry (3, 0) nursery 1 2 7 1
     = (Inr (lot 3 2 7 3), nursery\<lparr>stocks := [lot 1 1 10 1, lot 2 1 5 2, lot 3 2 7 3]\<rparr>)
   \<and> location_total nursery 1 2 = 0
   \<and> location_total (nursery\<lparr>stocks := [lot 1 1 10 1, lot 2 1 5 2, lot 3 2 7 3]\<rparr>) 1 2 = 7"
  using add_stock_entry_new_lot[of 1 2 7 nursery "(3, 0)" 1]
  by (simp add: operation_defs example_defs)

text \<open>
  The claim as first stated fails for a positive quantity that SQLite cannot hold: adding
  \<open>2^63\<close> seedlings raises \<^verbatim>\<open>OverflowError\<close> at the commit, and no row is created.
\<close>

theorem add_stock_entry_quantity_too_large:
  "(0::int) < 2 ^ 63
   \<and> add_stock_entry (3, 0) nursery 1 2 (2 ^ 63) 1 = (Inl OverflowError, nursery)"
  by (simp add: operation_defs example_defs)

subsection \<open>Quantities never go negative, rows are never deleted\<close>

text \<open>
  Claim C7, as amended. From a database whose lots have distinct ids and quantities of
  at least 0 (the empty stock table is one), every sequence of additions, transfers and
  sales that respect their stated preconditions and of quantity updates to a quantity of
  at least 0 reaches a database in which every lot's quantity is at least 0. Whatever
  the commands are, the ids of the lots that were there remain, in place, at the head
  of the table: no row is ever deleted, also when its quantity reaches zero.
\<close>

theorem ledger_quantities_never_negative:
  "(distinct (map stock_id (stocks db)) \<and> (\<forall>s\<in>set (stocks db). 0 \<le> quantity s)
      \<and> (\<forall>op\<in>set ops. precondition op \<and> update_not_negative op)
    \<longrightarrow> (\<forall>s\<in>set (stocks (run fmul ops db)). 0 \<le> quantity s))
   \<and> prefix (map stock_id (stocks db)) (map stock_id (stocks (run fmul ops db)))"
proof
  show "distinct (map stock_id (stocks db)) \<and> (\<forall>s\<in>set (stocks db). 0 \<le> quantity s)
      \<and> (\<forall>op\<in>set ops. precondition op \<and> update_not_negative op)
    \<longrightarrow> (\<forall>s\<in>set (stocks (run fmul ops db)). 0 \<le> quantity s)"
  proof (induction ops arbitrary: db)
    case Nil
    show ?case by simp
  next
    case (Cons op ops)
    show ?case
    proof
      assume a: "distinct (map stock_id (stocks db)) \<and> (\<forall>s\<in>set (stocks db). 0 \<le> quantity s)
        \<and> (\<forall>op\<in>set (op # ops). precondition op \<and> update_not_negative op)"
      then have "distinct (map stock_id (stocks (exec fmul op db)))"
        and "\<forall>s\<in>set (stocks (exec fmul op db)). 0 \<le> quantity s"
        using exec_distinct[of db fmul op] exec_nonneg[of db op fmul] by simp_all
      then show "\<forall>s\<in>set (stocks (run fmul (op # ops) db)). 0 \<le> quantity s"
        using Cons[of "exec fmul op db"] a by simp
    qed
  qed
  show "prefix (map stock_id (stocks db)) (map stock_id (stocks (run fmul ops db)))"
    by (rule run_keeps_rows)
qed

text \<open>
  A season that ends with every lot at zero and every lot still in the table.
\<close>

theorem ledger_quantities_never_negative_witness:
  "distinct (map stock_id (stocks empty_beds)) \<and> list_all (\<lambda>s. 0 \<le> quantity s) (stocks empty_beds)
   \<and> list_all precondition season \<and> list_all update_not_negative season
   \<and> stocks (run fmul_real season empty_beds) = [lot 1 1 0 1, lot 2 1 0 2, lot 3 2 0 3]"
proof -
  show ?thesis
    using ledger_quantities_never_negative[of empty_beds season fmul_real]
    by (simp add: operation_defs example_defs)
qed

text \<open>
  The claim as first stated fails for the quantity update, which has no stated
  precondition and no guard: \<open>update_stock_quantity\<close> stores the quantity it is given,
  here -5.
\<close>

theorem update_stores_negative_quantity:
  "distinct (map stock_id (stocks nursery)) \<and> list_all (\<lambda>s. 0 \<le> quantity s) (stocks nursery)
   \<and> list_all precondition [Update 1 (- 5) :: real ledger_op]
   \<and> stocks (run fmul_real [Update 1 (- 5)] nursery) = [lot 1 1 (- 5) 1, lot 2 1 5 2]
   \<and> quantity (lot 1 1 (- 5) 1) < 0"
  by (simp add: operation_defs example_defs)

subsection \<open>Queries\<close>

text \<open>
  Claim C8, as amended. For an end date before 9999-12-31, or none, the sales-history
  query returns, with the database unchanged, a list that is ordered by transaction date
  descending and holds exactly the transactions (each as often as the table holds it)
  whose day is not before the start date, when one is given, and not after the end
  date, when one is given: a transaction dated at any time of the end date is included.
\<close>

theorem sales_history_window:
  assumes "case end_date of None \<Rightarrow> True | Some e \<Rightarrow> 1 \<le> e \<and> e < MAXORDINAL"
  shows "\<exists>r. get_all_transactions db start_date end_date = (Inr r, db)
     \<and> sorted_wrt (\<lambda>a b. transaction_date b \<le> transaction_date a) r
     \<and> mset r = mset (filter
         (\<lambda>t. (case start_date of None \<Rightarrow> True | Some s \<Rightarrow> s \<le> fst (transaction_date t))
            \<and> (case end_date of None \<Rightarrow> True | Some e \<Rightarrow> fst (transaction_date t) \<le> e))
         (transactions db))"
proof (cases end_date)
  case None
  then show ?thesis
    by (cases start_date)
      (simp_all add: get_all_transactions_def order_by_date_desc_sorted
        order_by_date_desc_mset midnight_le)
next
  case (Some e)
  then have "date_add_days e 1 = Inr (e + 1)"
    using assms by (simp add: date_add_days_def)
  with Some show ?thesis
    by (cases start_date)
      (simp_all add: get_all_transactions_def order_by_date_desc_sorted
        order_by_date_desc_mset midnight_le less_midnight_next conj_commute)
qed

text \<open>
  Start and end on day 738001: the sale at the first microsecond of that day and the one
  at its last are returned, latest first; those of the days before and after are not.
\<close>

theorem sales_history_window_witness:
  "(1::int) \<le> 738001 \<and> 738001 < MAXORDINAL
   \<and> get_all_transactions history (Some 738001) (Some 738001)
     = (Inr [sale_tx 3 1 (738001, 86399999999), sale_tx 2 3 (738001, 0)], history)"
proof -
  have h: "case Some (738001::int) of None \<Rightarrow> True | Some e \<Rightarrow> 1 \<le> e \<and> e < MAXORDINAL"
    by (simp add: MAXORDINAL_def)
  show ?thesis
    using sales_history_window[OF h, of history "Some 738001"]
    by (simp add: operation_defs example_defs)
qed

text \<open>
  The claim as first stated fails for the end date 9999-12-31: adding one day to it
  raises \<^verbatim>\<open>OverflowError\<close>, and the query returns no list.
\<close>

theorem sales_history_last_day_raises:
  "fst (get_all_transactions history None (Some MAXORDINAL)) = Inl OverflowError"
  by (simp add: get_all_transactions_def date_add_days_def MAXORDINAL_def)

text \<open>
  Claim C10, as amended. In the inventory query a filter id of 0 acts as no filter: with
  0 for the tree type the result is that of \<^verbatim>\<open>None\<close> for the tree type, likewise for the
  location, and with 0 (or \<^verbatim>\<open>None\<close>) for both the result is every lot. For a positive id
  that is a 64-bit integer the result is exactly the lots whose foreign key equals it
  (and that pass the other filter). For an id that is not a 64-bit integer the query
  raises \<^verbatim>\<open>OverflowError\<close>.
\<close>

theorem stock_filter_zero_is_no_filter:
  "get_all_stock_entries db (Some 0) l = get_all_stock_entries db None l
   \<and> get_all_stock_entries db t (Some 0) = get_all_stock_entries db t None
   \<and> get_all_stock_entries db (Some 0) (Some 0) = (Inr (stocks db), db)
   \<and> get_all_stock_entries db None None = (Inr (stocks db), db)
   \<and> (0 < t' \<and> in_int64 t' \<longrightarrow> get_all_stock_entries db (Some t') None
                  = (Inr (filter (\<lambda>s. tree_type_id s = t') (stocks db)), db))
   \<and> (0 < l' \<and> in_int64 l' \<longrightarrow> get_all_stock_entries db None (Some l')
                  = (Inr (filter (\<lambda>s. location_id s = l') (stocks db)), db))
   \<and> (0 < t' \<and> in_int64 t' \<and> 0 < l' \<and> in_int64 l' \<longrightarrow>
        get_all_stock_entries db (Some t') (Some l')
          = (Inr (filter (\<lambda>s. tree_type_id s = t' \<and> location_id s = l') (stocks db)), db))
   \<and> (\<not> in_int64 t' \<longrightarrow> get_all_stock_entries db (Some t') l = (Inl OverflowError, db))
   \<and> (\<not> in_int64 l' \<longrightarrow> get_all_stock_entries db t (Some l') = (Inl OverflowError, db))"
proof -
  have z: "in_int64 0" by (simp add: in_int64_def)
  have nz: "n \<noteq> 0" if "\<not> in_int64 n" for n using that z by auto
  show ?thesis
    by (auto simp: get_all_stock_entries_def filter_by_def Let_def z dest: nz
        split: option.splits sum.splits intro: filter_cong)
qed

theorem stock_filter_zero_is_no_filter_witness:
  "get_all_stock_entries two_beds (Some 0) (Some 0) = (Inr (stocks two_beds), two_beds)
   \<and> get_all_stock_entries two_beds (Some 0) (Some 2) = (Inr [lot 2 2 3 2], two_beds)
   \<and> (0::int) < 1 \<and> in_int64 1 \<and> (0::int) < 2 \<and> in_int64 2
   \<and> get_all_stock_entries two_beds (Some 1) None
     = (Inr [lot 1 1 10 1, lot 2 2 3 2], two_beds)
   \<and> get_all_stock_entries two_beds None (Some 2) = (Inr [lot 2 2 3 2], two_beds)
   \<and> get_all_stock_entries two_beds (Some 1) (Some 2) = (Inr [lot 2 2 3 2], two_beds)"
  using stock_filter_zero_is_no_filter[of two_beds "Some 2" "Some 1" 1 2]
  by (simp add: operation_defs example_defs)

text \<open>
  The claim as first stated fails for a positive id that is not a 64-bit integer: the
  query with the tree-type filter \<open>2^63\<close> raises \<^verbatim>\<open>OverflowError\<close> and returns no list.
\<close>

theorem stock_filter_id_too_large:
  "(0::int) < 2 ^ 63
   \<and> get_all_stock_entries two_beds (Some (2 ^ 63)) None = (Inl OverflowError, two_beds)"
  by (simp add: operation_defs example_defs)

end
